theory Spec2Isabelle
  imports Complex_Main
begin

section \<open>The isometric farm view (VisualTwin.tsx)\<close>

text \<open>
  The component keeps React state (selection, hover, zoom, pan, drag gesture), a mutable
  \<^verbatim>\<open>Map\<close> of zone hit areas behind a ref, and draws on a 2D canvas. Finite
  JavaScript numbers are modelled as real numbers: every statement below is about exact
  real arithmetic, not about the rounding or the overflow of IEEE doubles. The
  non-finite numbers are modelled where they can enter: in the fields of a zone, and in
  the pointer position over a canvas of size zero.
\<close>

subsection \<open>Points and the isometric projection\<close>

text \<open>An object \<^verbatim>\<open>{x, y}\<close> is a pair: \<open>fst\<close> is \<^verbatim>\<open>x\<close>, \<open>snd\<close> is \<^verbatim>\<open>y\<close>.\<close>

type_synonym point = "real \<times> real"

text \<open>
  \<^verbatim>\<open>toIsometric(x, y, z = 0)\<close>, lines 37-41. Every call in the file passes all three
  arguments, so the default of \<^verbatim>\<open>z\<close> is never used.
\<close>

definition toIsometric :: "real \<Rightarrow> real \<Rightarrow> real \<Rightarrow> point" where
  "toIsometric x y z =
     (let isoX = (x - y) * cos (pi / 6);
          isoY = (x + y) * sin (pi / 6) - z
      in (isoX, isoY))"

text \<open>
  The projection as the specification words it, with the angle given in degrees.
\<close>

definition degrees :: "real \<Rightarrow> real" where
  "degrees d = d * pi / 180"

definition project_spec :: "real \<Rightarrow> real \<Rightarrow> real \<Rightarrow> point" where
  "project_spec x y z =
     ((x - y) * cos (degrees 30), (x + y) * sin (degrees 30) - z)"

subsection \<open>Point in polygon\<close>

text \<open>
  \<^verbatim>\<open>isPointInPolygon\<close>, lines 44-55. JavaScript neither raises on a division by zero
  (it yields an infinity or NaN) nor on reading past the end of an array (it yields
  \<^verbatim>\<open>undefined\<close>, whose field access then throws). The model makes both events visible as
  error values, so that their absence is a statement about the function: a read is
  checked against the length, and the quotient of the crossing test is checked against a
  zero divisor. The conjunction \<^verbatim>\<open>&&\<close> is short-circuit: its right operand, the only
  place with a division, is evaluated only when the left operand is true.
\<close>

datatype pip_error = DivisionByZero | ReadOutOfRange

definition read_at :: "point list \<Rightarrow> nat \<Rightarrow> pip_error + point" where
  "read_at polygon k =
     (if k < length polygon then Inr (polygon ! k) else Inl ReadOutOfRange)"

definition checked_div :: "real \<Rightarrow> real \<Rightarrow> pip_error + real" where
  "checked_div a b = (if b = 0 then Inl DivisionByZero else Inr (a / b))"

definition intersect :: "point \<Rightarrow> point \<Rightarrow> point \<Rightarrow> pip_error + bool" where
  "intersect pt ci cj =
     (let xi = fst ci; yi = snd ci; xj = fst cj; yj = snd cj
      in if (yi > snd pt) \<noteq> (yj > snd pt)
         then (case checked_div ((xj - xi) * (snd pt - yi)) (yj - yi) of
                 Inl e \<Rightarrow> Inl e
               | Inr q \<Rightarrow> Inr (fst pt < q + xi))
         else Inr False)"

text \<open>
  The loop \<^verbatim>\<open>for (let i = 0, j = polygon.length - 1; i < polygon.length; j = i++)\<close>
  with its variables \<open>i\<close>, \<open>j\<close> and \<open>inside\<close>. For the empty polygon the source starts
  with \<open>j = -1\<close> and never enters the body; the natural-number subtraction gives \<open>0\<close>
  there, and the body is not entered either.
\<close>

function pip_loop :: "point \<Rightarrow> point list \<Rightarrow> nat \<Rightarrow> nat \<Rightarrow> bool \<Rightarrow> pip_error + bool" where
  "pip_loop pt polygon i j inside =
     (if i < length polygon
      then (case read_at polygon i of
              Inl e \<Rightarrow> Inl e
            | Inr ci \<Rightarrow>
               (case read_at polygon j of
                  Inl e \<Rightarrow> Inl e
                | Inr cj \<Rightarrow>
                   (case intersect pt ci cj of
                      Inl e \<Rightarrow> Inl e
                    | Inr b \<Rightarrow>
                        pip_loop pt polygon (i + 1) i (if b then \<not> inside else inside))))
      else Inr inside)"
  by pat_completeness auto
termination
  by (relation "measure (\<lambda>(pt, polygon, i, j, inside). length polygon - i)") auto

declare pip_loop.simps [simp del]

definition isPointInPolygon :: "point \<Rightarrow> point list \<Rightarrow> pip_error + bool" where
  "isPointInPolygon pt polygon = pip_loop pt polygon 0 (length polygon - 1) False"

subsection \<open>The 2D canvas\<close>

text \<open>
  The drawing context is modelled by its current transformation matrix, its stack of
  saved matrices, and a list, in device coordinates and oldest first, of the rectangles
  cleared by \<^verbatim>\<open>renderScene\<close> and the zone faces filled by \<^verbatim>\<open>draw3DZone\<close>. The
  component only translates and scales, so the matrix keeps the form
  \<open>x' = a * x + e\<close>, \<open>y' = d * y + f\<close>. Everything else that is painted (sky, ground,
  sensors, labels, crop rows, outlines, colours and gradient stops) changes pixels only
  and is not recorded.
\<close>

record matrix =
  m_a :: real
  m_d :: real
  m_e :: real
  m_f :: real

definition identity_matrix :: matrix where
  "identity_matrix = \<lparr>m_a = 1, m_d = 1, m_e = 0, m_f = 0\<rparr>"

definition transformPoint :: "matrix \<Rightarrow> point \<Rightarrow> point" where
  "transformPoint m p = (m_a m * fst p + m_e m, m_d m * snd p + m_f m)"

datatype draw_op = ClearRect "point list" | FillPath "point list"

record context2d =
  ctm :: matrix
  saved :: "matrix list"
  painted :: "draw_op list"

definition new_context :: context2d where
  "new_context = \<lparr>ctm = identity_matrix, saved = [], painted = []\<rparr>"

definition ctx_save :: "context2d \<Rightarrow> context2d" where
  "ctx_save c = c\<lparr>saved := ctm c # saved c\<rparr>"

text \<open>\<^verbatim>\<open>restore()\<close> on an empty stack does nothing.\<close>

definition ctx_restore :: "context2d \<Rightarrow> context2d" where
  "ctx_restore c = (case saved c of [] \<Rightarrow> c | m # ms \<Rightarrow> c\<lparr>ctm := m, saved := ms\<rparr>)"

text \<open>
  \<^verbatim>\<open>translate\<close> and \<^verbatim>\<open>scale\<close> multiply the current matrix from the right: the new
  transformation is applied to a point before the ones already in force.
\<close>

definition ctx_translate :: "real \<Rightarrow> real \<Rightarrow> context2d \<Rightarrow> context2d" where
  "ctx_translate dx dy c =
     c\<lparr>ctm := (ctm c)\<lparr>m_e := m_a (ctm c) * dx + m_e (ctm c),
                       m_f := m_d (ctm c) * dy + m_f (ctm c)\<rparr>\<rparr>"

definition ctx_scale :: "real \<Rightarrow> real \<Rightarrow> context2d \<Rightarrow> context2d" where
  "ctx_scale kx ky c =
     c\<lparr>ctm := (ctm c)\<lparr>m_a := m_a (ctm c) * kx, m_d := m_d (ctm c) * ky\<rparr>\<rparr>"

definition ctx_clearRect :: "real \<Rightarrow> real \<Rightarrow> real \<Rightarrow> real \<Rightarrow> context2d \<Rightarrow> context2d" where
  "ctx_clearRect x y w h c =
     c\<lparr>painted := painted c @
        [ClearRect (map (transformPoint (ctm c)) [(x, y), (x + w, y), (x + w, y + h), (x, y + h)])]\<rparr>"

text \<open>
  The sequence \<^verbatim>\<open>beginPath(); moveTo(corners[0]); corners.forEach(lineTo); closePath();
  fill()\<close> used for every face: the path starts at the first corner and then visits all
  corners, the first one again.
\<close>

definition ctx_fillPolygon :: "point list \<Rightarrow> context2d \<Rightarrow> context2d" where
  "ctx_fillPolygon corners c =
     c\<lparr>painted := painted c @
        [FillPath (map (transformPoint (ctm c)) (take 1 corners @ corners))]\<rparr>"

text \<open>
  The exceptions of the canvas interface that the component can meet.
  \<^verbatim>\<open>createLinearGradient\<close> and \<^verbatim>\<open>createRadialGradient\<close> throw a \<^verbatim>\<open>TypeError\<close> when an
  argument is not finite; \<^verbatim>\<open>createRadialGradient(x0, y0, r0, x1, y1, r1)\<close> throws an
  \<^verbatim>\<open>IndexSizeError\<close> when one of the two radii is negative; \<^verbatim>\<open>addColorStop\<close> throws a
  \<^verbatim>\<open>SyntaxError\<close> when its colour string does not parse.
\<close>

datatype dom_exception = IndexSizeError | TypeError | SyntaxError

datatype outcome = Returned | Thrown dom_exception

definition createRadialGradient_throws :: "real \<Rightarrow> real \<Rightarrow> bool" where
  "createRadialGradient_throws r0 r1 \<longleftrightarrow> r0 < 0 \<or> r1 < 0"

subsection \<open>Data\<close>

text \<open>
  A number that reaches the component from outside, as a field of a zone, is a real
  number or one of the three non-finite values of JavaScript. Arithmetic is only ever
  carried out on finite values: a sum, a difference or a product with a non-finite
  operand is non-finite again, and so is its quotient by a nonzero constant, and below
  every result that a non-finite field would reach is handed to a call that rejects it.
\<close>

datatype number = Finite real | Infinity | NegInfinity | NaN

fun finiteValue :: "number \<Rightarrow> real option" where
  "finiteValue (Finite r) = Some r"
| "finiteValue Infinity = None"
| "finiteValue NegInfinity = None"
| "finiteValue NaN = None"

text \<open>
  A zone of \<^verbatim>\<open>farmData.zones\<close> (interface \<^verbatim>\<open>Zone\<close>), with the fields that decide
  geometry, identity and colour. Its \<^verbatim>\<open>name\<close>, \<^verbatim>\<open>temperature\<close> and \<^verbatim>\<open>ph\<close> are only
  printed in the label.
\<close>

record rect =
  pos_x :: number
  pos_y :: number
  pos_width :: number
  pos_height :: number

record zone =
  zone_id :: string
  health :: number
  soil_moisture :: number
  position :: rect

text \<open>The four fields of a position when all of them are finite.\<close>

definition finiteRect :: "rect \<Rightarrow> (real \<times> real \<times> real \<times> real) option" where
  "finiteRect r =
     (case finiteValue (pos_x r) of None \<Rightarrow> None | Some baseX \<Rightarrow>
      case finiteValue (pos_y r) of None \<Rightarrow> None | Some baseY \<Rightarrow>
      case finiteValue (pos_width r) of None \<Rightarrow> None | Some width \<Rightarrow>
      case finiteValue (pos_height r) of None \<Rightarrow> None | Some height \<Rightarrow>
        Some (baseX, baseY, width, height))"

text \<open>A value of the \<^verbatim>\<open>zoneHitAreasRef\<close> map, line 23.\<close>

record hit_area =
  area_x :: real
  area_y :: real
  corners :: "point list"

text \<open>
  A JavaScript \<^verbatim>\<open>Map\<close> iterates in insertion order, and \<^verbatim>\<open>set\<close> on a key that is
  present replaces the value where the key stands; on a new key it appends.
\<close>

fun map_set :: "'k \<Rightarrow> 'v \<Rightarrow> ('k \<times> 'v) list \<Rightarrow> ('k \<times> 'v) list" where
  "map_set k v [] = [(k, v)]"
| "map_set k v (e # m) = (if fst e = k then (k, v) # m else e # map_set k v m)"

text \<open>
  The component's state: the \<^verbatim>\<open>useState\<close> cells of lines 25-32, the hit-area map, the
  canvas context, and the list of ids the callback \<^verbatim>\<open>onZoneClick\<close> has been called
  with, oldest first. (\<^verbatim>\<open>autoRotate\<close> is never read; \<^verbatim>\<open>currentTime\<close> only moves
  clouds, crop rows and the sensors' glow.)
\<close>

record twin =
  selectedZone :: "string option"
  hoveredZone :: "string option"
  zoomLevel :: real
  panOffset :: point
  isDragging :: bool
  dragStart :: point
  showSensors :: bool
  showLabels :: bool
  zoneHitAreas :: "(string \<times> hit_area) list"
  canvas_ctx :: context2d
  onZoneClick_calls :: "string list"

definition initial_twin :: twin where
  "initial_twin =
     \<lparr>selectedZone = None, hoveredZone = None, zoomLevel = 1, panOffset = (100, 50),
      isDragging = False, dragStart = (0, 0), showSensors = True, showLabels = True,
      zoneHitAreas = [], canvas_ctx = new_context, onZoneClick_calls = []\<rparr>"

text \<open>
  The props (\<^verbatim>\<open>farmData.zones\<close> may be missing, \<^verbatim>\<open>onZoneClick\<close> is optional) and
  what the handlers read from the page: whether \<^verbatim>\<open>canvasRef.current\<close> and the 2D
  context exist, and the canvas's bounding rectangle.
\<close>

record props =
  farm_zones :: "zone list option"
  has_onZoneClick :: bool
  fullScreen :: bool

record page =
  canvas_mounted :: bool
  context_available :: bool
  rect_left :: real
  rect_top :: real
  rect_width :: real
  rect_height :: real

definition canvas_width :: "props \<Rightarrow> real" where
  "canvas_width pr = (if fullScreen pr then 1200 else 1000)"

definition canvas_height :: "props \<Rightarrow> real" where
  "canvas_height pr = (if fullScreen pr then 900 else 700)"

record mouse_event =
  clientX :: real
  clientY :: real

subsection \<open>Drawing a frame\<close>

text \<open>
  The colours of lines 181-185, as the three numbers printed into the string
  \<^verbatim>\<open>rgb(r, g, b)\<close>. With a non-finite \<^verbatim>\<open>soil_moisture\<close> or \<^verbatim>\<open>health\<close> the string
  holds \<^verbatim>\<open>NaN\<close> or \<^verbatim>\<open>Infinity\<close> and is not a colour: \<open>None\<close>.
\<close>

definition topColor :: "zone \<Rightarrow> (int \<times> int \<times> int) option" where
  "topColor zone =
     (case finiteValue (soil_moisture zone) of None \<Rightarrow> None | Some m \<Rightarrow>
      case finiteValue (health zone) of None \<Rightarrow> None | Some hl \<Rightarrow>
        (let moistureRatio = m / 60; healthRatio = hl / 100
         in Some (\<lfloor>60 + 100 * moistureRatio\<rfloor>, \<lfloor>150 + 50 * healthRatio\<rfloor>,
                  \<lfloor>50 + 30 * moistureRatio\<rfloor>)))"

definition sideColor :: "zone \<Rightarrow> (int \<times> int \<times> int) option" where
  "sideColor zone =
     (case finiteValue (soil_moisture zone) of None \<Rightarrow> None | Some m \<Rightarrow>
      case finiteValue (health zone) of None \<Rightarrow> None | Some hl \<Rightarrow>
        (let moistureRatio = m / 60; healthRatio = hl / 100
         in Some (\<lfloor>40 + 80 * moistureRatio\<rfloor>, \<lfloor>120 + 40 * healthRatio\<rfloor>,
                  \<lfloor>30 + 20 * moistureRatio\<rfloor>)))"

text \<open>
  \<^verbatim>\<open>draw3DZone\<close>, lines 166-311. The function has no check of its own; it is left
  early by the first call that throws.

  \<^item> A non-finite field of the position makes an argument of \<^verbatim>\<open>createLinearGradient\<close>
    (line 213) non-finite: its arguments are coordinates of the corners
    \<open>(x + w, y)\<close> and \<open>(x + w, y + h)\<close>. Before that the front face is filled, but
    \<^verbatim>\<open>moveTo\<close> and \<^verbatim>\<open>lineTo\<close> ignore a non-finite point, and the corners of the front
    face that are left (none, or the two above \<open>(x, y + h)\<close> when only the width is
    non-finite) enclose no area: nothing is painted.
  \<^item> With a finite position the front face is filled, with the fill style found when
    \<^verbatim>\<open>sideColor\<close> is not a colour (assigning such a string to \<^verbatim>\<open>fillStyle\<close> is
    ignored). \<^verbatim>\<open>addColorStop\<close> (lines 217-218) then throws unless both colours parse.
  \<^item> The right face is filled, the hit area is stored (line 242), and the radial
    gradient of the top face (line 248) has the outer radius \<^verbatim>\<open>Math.max(w, h)\<close>.
    When that is negative the constructor throws: the hit area is already stored, the
    top face is not filled.
  \<^item> Otherwise the top face is filled and \<^verbatim>\<open>restore()\<close> is reached. What lies
    between (outline, crop rows, label) only strokes and prints. The loop of the crop
    rows steps by 15 up to the finite \<open>w\<close> and ends in real arithmetic; that adding 15
    to a double beyond \<open>2 ^ 57\<close> no longer changes it is rounding, and outside this
    model like all rounding.
\<close>

definition frontCorners :: "real \<Rightarrow> real \<Rightarrow> real \<Rightarrow> real \<Rightarrow> real \<Rightarrow> point list" where
  "frontCorners x y w h zoneHeight =
     [toIsometric x (y + h) 0, toIsometric (x + w) (y + h) 0,
      toIsometric (x + w) (y + h) zoneHeight, toIsometric x (y + h) zoneHeight]"

definition rightCorners :: "real \<Rightarrow> real \<Rightarrow> real \<Rightarrow> real \<Rightarrow> real \<Rightarrow> point list" where
  "rightCorners x y w h zoneHeight =
     [toIsometric (x + w) y 0, toIsometric (x + w) (y + h) 0,
      toIsometric (x + w) (y + h) zoneHeight, toIsometric (x + w) y zoneHeight]"

definition topCorners :: "real \<Rightarrow> real \<Rightarrow> real \<Rightarrow> real \<Rightarrow> real \<Rightarrow> point list" where
  "topCorners x y w h zoneHeight =
     [toIsometric x y zoneHeight, toIsometric (x + w) y zoneHeight,
      toIsometric (x + w) (y + h) zoneHeight, toIsometric x (y + h) zoneHeight]"

definition draw3DZone :: "twin \<Rightarrow> zone \<Rightarrow> real \<Rightarrow> real \<Rightarrow> outcome \<times> twin" where
  "draw3DZone s zone centerX centerY =
     (let c1 = ctx_translate centerX centerY (ctx_save (canvas_ctx s))
      in case finiteRect (position zone) of
           None \<Rightarrow> (Thrown TypeError, s\<lparr>canvas_ctx := c1\<rparr>)
         | Some (baseX, baseY, width, height) \<Rightarrow>
            (let zoneHeight = 30;
                 scale = 8 / 10;
                 x = (baseX - 400) * scale;
                 y = (baseY - 300) * scale;
                 w = width * scale;
                 h = height * scale;
                 c2 = ctx_fillPolygon (frontCorners x y w h zoneHeight) c1
             in if sideColor zone = None \<or> topColor zone = None
                then (Thrown SyntaxError, s\<lparr>canvas_ctx := c2\<rparr>)
                else
                  (let c3 = ctx_fillPolygon (rightCorners x y w h zoneHeight) c2;
                       absoluteCorners =
                         map (\<lambda>corner. (fst corner + centerX, snd corner + centerY))
                           (topCorners x y w h zoneHeight);
                       areas = map_set (zone_id zone)
                                 \<lparr>area_x = centerX, area_y = centerY, corners = absoluteCorners\<rparr>
                                 (zoneHitAreas s)
                   in if createRadialGradient_throws 0 (max w h)
                      then (Thrown IndexSizeError, s\<lparr>zoneHitAreas := areas, canvas_ctx := c3\<rparr>)
                      else (Returned,
                            s\<lparr>zoneHitAreas := areas,
                              canvas_ctx :=
                                ctx_restore (ctx_fillPolygon (topCorners x y w h zoneHeight) c3)\<rparr>))))"

text \<open>\<^verbatim>\<open>farmData.zones.forEach(zone => draw3DZone(...))\<close>: an exception ends the iteration.\<close>

fun zones_forEach :: "twin \<Rightarrow> zone list \<Rightarrow> real \<Rightarrow> real \<Rightarrow> outcome \<times> twin" where
  "zones_forEach s [] centerX centerY = (Returned, s)"
| "zones_forEach s (zone # zones) centerX centerY =
     (case draw3DZone s zone centerX centerY of
        (Thrown e, s') \<Rightarrow> (Thrown e, s')
      | (Returned, s') \<Rightarrow> zones_forEach s' zones centerX centerY)"

text \<open>
  \<^verbatim>\<open>renderScene\<close>, lines 393-428. \<^verbatim>\<open>drawSky\<close>, \<^verbatim>\<open>drawGround\<close> and
  \<^verbatim>\<open>draw3DSensor\<close> touch neither the hit areas nor the transformation they find (each
  restores what it saves), and their gradient and arc radii are positive constants or a
  positive multiple of \<open>0.7 + 0.3 * sin t\<close>, so they cannot throw; their calls are left
  out. A missing \<^verbatim>\<open>farmData.zones\<close> is falsy and skips the zones. An exception from a
  zone leaves the function before its final \<^verbatim>\<open>restore()\<close>.
\<close>

definition applyCamera :: "twin \<Rightarrow> context2d \<Rightarrow> context2d" where
  "applyCamera s c =
     ctx_scale (zoomLevel s) (zoomLevel s)
       (ctx_translate (fst (panOffset s)) (snd (panOffset s)) c)"

definition renderScene :: "props \<Rightarrow> page \<Rightarrow> twin \<Rightarrow> outcome \<times> twin" where
  "renderScene pr pg s =
     (if \<not> canvas_mounted pg then (Returned, s)
      else if \<not> context_available pg then (Returned, s)
      else
        let width = canvas_width pr;
            height = canvas_height pr;
            c0 = ctx_clearRect 0 0 width height (canvas_ctx s);
            c1 = applyCamera s (ctx_save c0);
            centerX = width / 2;
            centerY = height * (7 / 10);
            s1 = s\<lparr>canvas_ctx := c1\<rparr>
        in case (case farm_zones pr of
                   None \<Rightarrow> (Returned, s1)
                 | Some zones \<Rightarrow> zones_forEach s1 zones centerX centerY) of
             (Thrown e, s2) \<Rightarrow> (Thrown e, s2)
           | (Returned, s2) \<Rightarrow> (Returned, s2\<lparr>canvas_ctx := ctx_restore (canvas_ctx s2)\<rparr>))"

subsection \<open>The camera\<close>

text \<open>
  The transformation in force while a frame is drawn, lines 405-407, starting from the
  identity: where a point of the scene lands on the canvas.
\<close>

definition sceneToScreen :: "twin \<Rightarrow> point \<Rightarrow> point" where
  "sceneToScreen s p = transformPoint (ctm (applyCamera s new_context)) p"

text \<open>The inverse written out in both pointer handlers, lines 472-473 and 498-499.\<close>

definition screenToScene :: "twin \<Rightarrow> point \<Rightarrow> point" where
  "screenToScene s m =
     (let adjustedX = (fst m - fst (panOffset s)) / zoomLevel s;
          adjustedY = (snd m - snd (panOffset s)) / zoomLevel s
      in (adjustedX, adjustedY))"

text \<open>
  The pointer position in canvas pixels, lines 467-469 and 494-496. A bounding rectangle
  of width or height zero makes the quotient \<^verbatim>\<open>canvas.width / rect.width\<close> or its
  companion infinite and the position non-finite in that coordinate: \<open>None\<close>. With such
  a point \<^verbatim>\<open>isPointInPolygon\<close> is false for every polygon of finite corners: a
  comparison with NaN is false, a non-finite \<open>y\<close> lies on one side of all corners, and
  an infinite \<open>x\<close> lies on one side of all crossings, which are even in number.
\<close>

definition mousePosition :: "props \<Rightarrow> page \<Rightarrow> mouse_event \<Rightarrow> point option" where
  "mousePosition pr pg e =
     (if rect_width pg = 0 \<or> rect_height pg = 0 then None
      else
        let mouseX = (clientX e - rect_left pg) * (canvas_width pr / rect_width pg);
            mouseY = (clientY e - rect_top pg) * (canvas_height pr / rect_height pg)
        in Some (mouseX, mouseY))"

subsection \<open>Event handlers\<close>

definition handleMouseDown :: "mouse_event \<Rightarrow> twin \<Rightarrow> twin" where
  "handleMouseDown e s = s\<lparr>isDragging := True, dragStart := (clientX e, clientY e)\<rparr>"

text \<open>The hover search keeps the last area that contains the point, lines 475-480.\<close>

definition hover_forEach :: "point \<Rightarrow> (string \<times> hit_area) list \<Rightarrow> string option" where
  "hover_forEach pt areas =
     foldl (\<lambda>found (zoneId, hitArea).
              if isPointInPolygon pt (corners hitArea) = Inr True then Some zoneId else found)
       None areas"

definition handleMouseMove :: "props \<Rightarrow> page \<Rightarrow> mouse_event \<Rightarrow> twin \<Rightarrow> twin" where
  "handleMouseMove pr pg e s =
     (if isDragging s
      then s\<lparr>panOffset := (fst (panOffset s) + (clientX e - fst (dragStart s)),
                           snd (panOffset s) + (clientY e - snd (dragStart s))),
             dragStart := (clientX e, clientY e)\<rparr>
      else if \<not> canvas_mounted pg then s
      else s\<lparr>hoveredZone :=
                (case mousePosition pr pg e of
                   None \<Rightarrow> None
                 | Some m \<Rightarrow> hover_forEach (screenToScene s m) (zoneHitAreas s))\<rparr>)"

definition handleMouseUp :: "twin \<Rightarrow> twin" where
  "handleMouseUp s = s\<lparr>isDragging := False\<rparr>"

text \<open>
  \<^verbatim>\<open>handleClick\<close>, lines 488-507: every area that contains the point selects its zone
  and calls \<^verbatim>\<open>onZoneClick?.(zoneId)\<close>, in the map's order.
\<close>

definition click_forEach :: "props \<Rightarrow> point \<Rightarrow> (string \<times> hit_area) list \<Rightarrow> twin \<Rightarrow> twin" where
  "click_forEach pr pt areas s =
     foldl (\<lambda>s' (zoneId, hitArea).
              if isPointInPolygon pt (corners hitArea) = Inr True
              then s'\<lparr>selectedZone := Some zoneId,
                      onZoneClick_calls :=
                        onZoneClick_calls s' @ (if has_onZoneClick pr then [zoneId] else [])\<rparr>
              else s')
       s areas"

definition handleClick :: "props \<Rightarrow> page \<Rightarrow> mouse_event \<Rightarrow> twin \<Rightarrow> twin" where
  "handleClick pr pg e s =
     (if isDragging s then s
      else if \<not> canvas_mounted pg then s
      else case mousePosition pr pg e of
             None \<Rightarrow> s
           | Some m \<Rightarrow> click_forEach pr (screenToScene s m) (zoneHitAreas s) s)"

record wheel_event =
  deltaY :: real

definition handleWheel :: "wheel_event \<Rightarrow> twin \<Rightarrow> twin" where
  "handleWheel e s =
     s\<lparr>zoomLevel :=
         max (1 / 2) (min 2 (zoomLevel s * (if deltaY e > 0 then 9 / 10 else 11 / 10)))\<rparr>"

definition handleReset :: "twin \<Rightarrow> twin" where
  "handleReset s = s\<lparr>zoomLevel := 1, panOffset := (100, 50), selectedZone := None\<rparr>"

text \<open>The inline handlers of the toolbar buttons and of the selection chip, lines 554-570 and 694.\<close>

definition zoomIn :: "twin \<Rightarrow> twin" where
  "zoomIn s = s\<lparr>zoomLevel := min (zoomLevel s * (12 / 10)) 2\<rparr>"

definition zoomOut :: "twin \<Rightarrow> twin" where
  "zoomOut s = s\<lparr>zoomLevel := max (zoomLevel s / (12 / 10)) (1 / 2)\<rparr>"

definition toggleLabels :: "twin \<Rightarrow> twin" where
  "toggleLabels s = s\<lparr>showLabels := \<not> showLabels s\<rparr>"

definition toggleSensors :: "twin \<Rightarrow> twin" where
  "toggleSensors s = s\<lparr>showSensors := \<not> showSensors s\<rparr>"

definition clearSelection :: "twin \<Rightarrow> twin" where
  "clearSelection s = s\<lparr>selectedZone := None\<rparr>"

text \<open>
  Everything that can happen to the component, one constructor per handler and one for
  an animation frame, and a run of such events from a state. Props and page may differ
  from one event to the next, so each event carries the ones it reads.
\<close>

datatype event =
    MouseDown mouse_event
  | MouseMove props page mouse_event
  | MouseUp
  | MouseLeave
  | Click props page mouse_event
  | Wheel wheel_event
  | ZoomInButton
  | ZoomOutButton
  | ResetButton
  | LabelsButton
  | SensorsButton
  | SelectionChipDelete
  | AnimationFrame props page

fun dispatch :: "twin \<Rightarrow> event \<Rightarrow> twin" where
  "dispatch s (MouseDown e) = handleMouseDown e s"
| "dispatch s (MouseMove pr pg e) = handleMouseMove pr pg e s"
| "dispatch s MouseUp = handleMouseUp s"
| "dispatch s MouseLeave = handleMouseUp s"
| "dispatch s (Click pr pg e) = handleClick pr pg e s"
| "dispatch s (Wheel e) = handleWheel e s"
| "dispatch s ZoomInButton = zoomIn s"
| "dispatch s ZoomOutButton = zoomOut s"
| "dispatch s ResetButton = handleReset s"
| "dispatch s LabelsButton = toggleLabels s"
| "dispatch s SensorsButton = toggleSensors s"
| "dispatch s SelectionChipDelete = clearSelection s"
| "dispatch s (AnimationFrame pr pg) = snd (renderScene pr pg s)"

definition run :: "twin \<Rightarrow> event list \<Rightarrow> twin" where
  "run s evs = foldl dispatch s evs"

subsection \<open>Notions read off the frame render\<close>

text \<open>
  Names for what \<^verbatim>\<open>draw3DZone\<close> and \<^verbatim>\<open>renderScene\<close> compute on the way, used to state
  what a frame leaves behind; the lemmas of the next section tie each of them to the
  functions above. \<open>zoneHitArea\<close> is the value stored at lines 237-246, \<open>zoneFills\<close>
  the three faces filled for a zone under the matrix \<open>m\<close> in force around the call.
  For a zone with a non-finite position nothing is stored and nothing is filled; the
  two names then stand for an area without corners and for no fill.
\<close>

definition zoneHitArea :: "zone \<Rightarrow> real \<Rightarrow> real \<Rightarrow> hit_area" where
  "zoneHitArea zone centerX centerY =
     (case finiteRect (position zone) of
        None \<Rightarrow> \<lparr>area_x = centerX, area_y = centerY, corners = []\<rparr>
      | Some (baseX, baseY, width, height) \<Rightarrow>
          \<lparr>area_x = centerX, area_y = centerY,
           corners = map (\<lambda>corner. (fst corner + centerX, snd corner + centerY))
             (topCorners ((baseX - 400) * (8 / 10)) ((baseY - 300) * (8 / 10))
                (width * (8 / 10)) (height * (8 / 10)) 30)\<rparr>)"


text \<open>
  How \<^verbatim>\<open>draw3DZone\<close> ends for a zone, which does not depend on the state, and the
  zones that are drawn to the end: all fields finite, and a width or a height that is
  not negative.
\<close>

definition zoneOutcome :: "zone \<Rightarrow> outcome" where
  "zoneOutcome zone =
     (case finiteRect (position zone) of
        None \<Rightarrow> Thrown TypeError
      | Some (baseX, baseY, width, height) \<Rightarrow>
          if sideColor zone = None \<or> topColor zone = None then Thrown SyntaxError
          else if width < 0 \<and> height < 0 then Thrown IndexSizeError
          else Returned)"

definition drawnToTheEnd :: "zone \<Rightarrow> bool" where
  "drawnToTheEnd zone \<longleftrightarrow>
     (case finiteRect (position zone) of
        None \<Rightarrow> False
      | Some (baseX, baseY, width, height) \<Rightarrow>
          finiteValue (health zone) \<noteq> None \<and> finiteValue (soil_moisture zone) \<noteq> None
          \<and> (0 \<le> width \<or> 0 \<le> height))"

text \<open>
  The zones whose hit area a frame stores: those before the first zone that throws, and
  that zone too when it throws only at the radial gradient.
\<close>

fun attempted :: "zone list \<Rightarrow> zone list" where
  "attempted [] = []"
| "attempted (z # zs) =
     (case zoneOutcome z of
        Returned \<Rightarrow> z # attempted zs
      | Thrown e \<Rightarrow> (if e = IndexSizeError then [z] else []))"

definition storeZones ::
  "zone list \<Rightarrow> real \<Rightarrow> real \<Rightarrow> (string \<times> hit_area) list \<Rightarrow> (string \<times> hit_area) list" where
  "storeZones zones centerX centerY areas =
     foldl (\<lambda>m z. map_set (zone_id z) (zoneHitArea z centerX centerY) m) areas zones"

definition zones_of :: "props \<Rightarrow> zone list" where
  "zones_of pr = (case farm_zones pr of None \<Rightarrow> [] | Some zones \<Rightarrow> zones)"

definition lastZoneWithId :: "string \<Rightarrow> zone list \<Rightarrow> zone option" where
  "lastZoneWithId k zones = find (\<lambda>z. zone_id z = k) (rev zones)"

definition centerX_of :: "props \<Rightarrow> real" where
  "centerX_of pr = canvas_width pr / 2"

definition centerY_of :: "props \<Rightarrow> real" where
  "centerY_of pr = canvas_height pr * (7 / 10)"

text \<open>The state in which the zones of a frame are drawn, and the rectangle the frame clears.\<close>

definition frameStart :: "props \<Rightarrow> twin \<Rightarrow> twin" where
  "frameStart pr s =
     s\<lparr>canvas_ctx := applyCamera s
          (ctx_save (ctx_clearRect 0 0 (canvas_width pr) (canvas_height pr) (canvas_ctx s)))\<rparr>"

definition clearedRect :: "props \<Rightarrow> twin \<Rightarrow> draw_op" where
  "clearedRect pr s =
     ClearRect (map (transformPoint (ctm (canvas_ctx s)))
       [(0, 0), (canvas_width pr, 0), (canvas_width pr, canvas_height pr), (0, canvas_height pr)])"

text \<open>The fields a frame does not write.\<close>

definition camera_of ::
  "twin \<Rightarrow> string option \<times> string option \<times> real \<times> point \<times> bool \<times> point \<times> bool \<times> bool \<times> string list" where
  "camera_of s = (selectedZone s, hoveredZone s, zoomLevel s, panOffset s, isDragging s,
     dragStart s, showSensors s, showLabels s, onZoneClick_calls s)"

text \<open>The test both pointer handlers apply to an entry of the map, and the centroid of a polygon.\<close>

definition hits :: "point \<Rightarrow> string \<times> hit_area \<Rightarrow> bool" where
  "hits pt entry \<longleftrightarrow> isPointInPolygon pt (corners (snd entry)) = Inr True"

definition centroid :: "point list \<Rightarrow> point" where
  "centroid ps = (sum_list (map fst ps) / real (length ps), sum_list (map snd ps) / real (length ps))"

text \<open>
  A click that ends no drag: pointer down and pointer up at one place with no pointer
  move between them, then the click event at that place.
\<close>

definition nonDragClick :: "props \<Rightarrow> page \<Rightarrow> mouse_event \<Rightarrow> twin \<Rightarrow> twin" where
  "nonDragClick pr pg e s = run s [MouseDown e, MouseUp, Click pr pg e]"

text \<open>
  The point of the scene that shows the farm-space point \<open>(u, v)\<close> on the roof of a
  zone, for the centre \<open>(centerX, centerY)\<close> of a frame: the scaling of lines 172-174,
  the projection at the height of a zone, and the shift by the centre.
\<close>

definition roofPoint :: "real \<Rightarrow> real \<Rightarrow> real \<Rightarrow> real \<Rightarrow> point" where
  "roofPoint centerX centerY u v =
     (let p = toIsometric ((u - 400) * (8 / 10)) ((v - 300) * (8 / 10)) 30
      in (fst p + centerX, snd p + centerY))"

subsection \<open>Example data\<close>

text \<open>
  Zone \<open>A\<close> is the zone of the specification's scenario, on the farm-space rectangle
  (0, 0, 100, 100); zone \<open>P\<close> lies on the same rectangle under another id. Zone \<open>N\<close>
  has a negative width, zone \<open>M\<close> a negative width and a negative height, zone \<open>W\<close>
  the width NaN, and zone \<open>D\<close> the soil moisture NaN. The page \<open>page0\<close> shows the
  canvas at its own size of 1000 by 700 pixels with its corner at the client origin, and
  \<open>centroidClick\<close> is the pointer position over the centre of zone \<open>A\<close>'s top face
  under the initial camera. On \<open>pageScrolled\<close> the canvas starts 550 pixels to the left
  of and 340 pixels above the client origin.
\<close>

definition zoneA :: zone where
  "zoneA = \<lparr>zone_id = ''A'', health = Finite 100, soil_moisture = Finite 60,
            position = \<lparr>pos_x = Finite 0, pos_y = Finite 0,
                        pos_width = Finite 100, pos_height = Finite 100\<rparr>\<rparr>"

definition zoneP :: zone where
  "zoneP = \<lparr>zone_id = ''P'', health = Finite 100, soil_moisture = Finite 60,
            position = \<lparr>pos_x = Finite 0, pos_y = Finite 0,
                        pos_width = Finite 100, pos_height = Finite 100\<rparr>\<rparr>"

definition zoneB :: zone where
  "zoneB = \<lparr>zone_id = ''B'', health = Finite 80, soil_moisture = Finite 40,
            position = \<lparr>pos_x = Finite 200, pos_y = Finite 100,
                        pos_width = Finite 100, pos_height = Finite 100\<rparr>\<rparr>"

definition zoneN :: zone where
  "zoneN = \<lparr>zone_id = ''N'', health = Finite 80, soil_moisture = Finite 40,
            position = \<lparr>pos_x = Finite 0, pos_y = Finite 0,
                        pos_width = Finite (- 10), pos_height = Finite 50\<rparr>\<rparr>"

definition zoneM :: zone where
  "zoneM = \<lparr>zone_id = ''M'', health = Finite 80, soil_moisture = Finite 40,
            position = \<lparr>pos_x = Finite 0, pos_y = Finite 0,
                        pos_width = Finite (- 10), pos_height = Finite (- 10)\<rparr>\<rparr>"

definition zoneW :: zone where
  "zoneW = \<lparr>zone_id = ''W'', health = Finite 80, soil_moisture = Finite 40,
            position = \<lparr>pos_x = Finite 0, pos_y = Finite 0,
                        pos_width = NaN, pos_height = Finite 50\<rparr>\<rparr>"

definition zoneD :: zone where
  "zoneD = \<lparr>zone_id = ''D'', health = Finite 80, soil_moisture = NaN,
            position = \<lparr>pos_x = Finite 0, pos_y = Finite 0,
                        pos_width = Finite 100, pos_height = Finite 100\<rparr>\<rparr>"

definition propsOf :: "zone list \<Rightarrow> props" where
  "propsOf zones = \<lparr>farm_zones = Some zones, has_onZoneClick = True, fullScreen = False\<rparr>"

definition page0 :: page where
  "page0 = \<lparr>canvas_mounted = True, context_available = True,
            rect_left = 0, rect_top = 0, rect_width = 1000, rect_height = 700\<rparr>"

definition pageScrolled :: page where
  "pageScrolled = \<lparr>canvas_mounted = True, context_available = True,
            rect_left = - 550, rect_top = - 340, rect_width = 1000, rect_height = 700\<rparr>"

definition centroidClick :: mouse_event where
  "centroidClick = \<lparr>clientX = 600 - 40 * sqrt 3, clientY = 270\<rparr>"

section \<open>Properties\<close>

subsection \<open>Projection\<close>

lemma degrees_30: "degrees 30 = pi / 6"
  by (simp add: degrees_def)

text \<open>
  Claim C9. The projection is the function
  \<open>project(x, y, z) = ((x - y) * cos 30\<degree>, (x + y) * sin 30\<degree> - z)\<close> of its three
  arguments alone, that is \<open>((x - y) * sqrt 3 / 2, (x + y) / 2 - z)\<close>, and the elevation
  \<open>z\<close> leaves the horizontal screen coordinate alone and lowers the vertical one by
  exactly \<open>z\<close>.
\<close>

theorem toIsometric_is_projection:
  "toIsometric x y z = project_spec x y z
   \<and> toIsometric x y z = ((x - y) * (sqrt 3 / 2), (x + y) / 2 - z)
   \<and> fst (toIsometric x y z) = fst (toIsometric x y 0)
   \<and> snd (toIsometric x y z) = snd (toIsometric x y 0) - z"
  by (simp add: toIsometric_def project_spec_def degrees_30 cos_30 sin_30)

subsection \<open>Point in polygon\<close>

lemma intersect_total: "\<exists>b. intersect pt ci cj = Inr b"
proof (cases "(snd ci > snd pt) \<noteq> (snd cj > snd pt)")
  case True
  then have "snd cj - snd ci \<noteq> 0" by auto
  with True show ?thesis
    by (simp add: intersect_def checked_div_def Let_def)
next
  case False
  then show ?thesis by (auto simp add: intersect_def Let_def)
qed

lemma pip_loop_total:
  "j < length polygon \<or> length polygon \<le> i \<Longrightarrow> \<exists>b. pip_loop pt polygon i j inside = Inr b"
proof (induction pt polygon i j inside rule: pip_loop.induct)
  case (1 pt polygon i j inside)
  show ?case
  proof (cases "i < length polygon")
    case False
    then show ?thesis by (simp add: pip_loop.simps)
  next
    case True
    with "1.prems" have j: "j < length polygon" by simp
    obtain b where b: "intersect pt (polygon ! i) (polygon ! j) = Inr b"
      using intersect_total by blast
    have ri: "read_at polygon i = Inr (polygon ! i)"
      using True by (simp add: read_at_def)
    have rj: "read_at polygon j = Inr (polygon ! j)"
      using j by (simp add: read_at_def)
    have "\<exists>c. pip_loop pt polygon (i + 1) i (if b then \<not> inside else inside) = Inr c"
      using "1.IH" [OF True ri rj b] True by simp
    then show ?thesis
      using True ri rj b by (subst pip_loop.simps) simp
  qed
qed

text \<open>
  Claim C10. The point-in-polygon test is total: for every list of points and every
  query point it returns a truth value, never reading outside the polygon and never
  dividing by zero; the quotient of the crossing test is formed only where
  \<open>yi > point.y\<close> and \<open>yj > point.y\<close> differ, and there \<open>yj - yi\<close> is not zero.
\<close>

theorem isPointInPolygon_total:
  "(\<exists>b. isPointInPolygon pt polygon = Inr b)
   \<and> ((snd ci > snd pt) \<noteq> (snd cj > snd pt) \<longrightarrow> snd cj - snd ci \<noteq> 0)
   \<and> (\<exists>b. intersect pt ci cj = Inr b)"
proof -
  have "length polygon - 1 < length polygon \<or> length polygon \<le> 0"
    by (cases polygon) simp_all
  then have "\<exists>b. pip_loop pt polygon 0 (length polygon - 1) False = Inr b"
    by (rule pip_loop_total)
  then show ?thesis
    using intersect_total by (auto simp add: isPointInPolygon_def)
qed

theorem isPointInPolygon_total_witness:
  "isPointInPolygon (2, 2) [(0, 0), (4, 0), (4, 4), (0, 4)] = Inr True
   \<and> (snd ((4::real), (4::real)) > snd ((2::real), (2::real)))
        \<noteq> (snd ((4::real), (0::real)) > snd ((2::real), (2::real)))
   \<and> snd ((4::real), (0::real)) - snd ((4::real), (4::real)) \<noteq> 0"
  using isPointInPolygon_total [of "(2, 2)" "[(0, 0), (4, 0), (4, 4), (0, 4)]" "(4, 4)" "(4, 0)"]
  by (simp add: isPointInPolygon_def pip_loop.simps read_at_def intersect_def
        checked_div_def Let_def)

subsection \<open>Runs of events\<close>

lemma run_Nil: "run s [] = s"
  by (simp add: run_def)

lemma run_snoc: "run s (evs @ [ev]) = dispatch (run s evs) ev"
  by (simp add: run_def)

subsection \<open>Camera\<close>

text \<open>
  Claim C3. For every pan offset and every zoom level between 0.5 and 2, the camera
  transformation of a frame (scale by the zoom level, then translate by the pan offset)
  followed by the handlers' inverse \<open>(point - panOffset) / zoomLevel\<close> gives back every
  point \<open>p\<close> exactly, in real arithmetic.
\<close>

theorem screenToScene_sceneToScreen:
  assumes "1 / 2 \<le> zoomLevel s" and "zoomLevel s \<le> 2"
  shows "screenToScene s (sceneToScreen s p) = p"
proof -
  from assms have z: "zoomLevel s \<noteq> 0" by auto
  have fwd: "sceneToScreen s p
      = (zoomLevel s * fst p + fst (panOffset s), zoomLevel s * snd p + snd (panOffset s))"
    by (simp add: sceneToScreen_def applyCamera_def ctx_scale_def ctx_translate_def
          new_context_def identity_matrix_def transformPoint_def)
  show ?thesis
    using z by (simp add: fwd screenToScene_def Let_def)
qed

theorem screenToScene_sceneToScreen_witness:
  "1 / 2 \<le> zoomLevel (initial_twin\<lparr>zoomLevel := 2, panOffset := (30, - 20)\<rparr>)
   \<and> zoomLevel (initial_twin\<lparr>zoomLevel := 2, panOffset := (30, - 20)\<rparr>) \<le> 2
   \<and> sceneToScreen (initial_twin\<lparr>zoomLevel := 2, panOffset := (30, - 20)\<rparr>) (3, 4) = (36, - 12)
   \<and> screenToScene (initial_twin\<lparr>zoomLevel := 2, panOffset := (30, - 20)\<rparr>)
         (sceneToScreen (initial_twin\<lparr>zoomLevel := 2, panOffset := (30, - 20)\<rparr>) (3, 4)) = (3, 4)"
  using screenToScene_sceneToScreen [of "initial_twin\<lparr>zoomLevel := 2, panOffset := (30, - 20)\<rparr>" "(3, 4)"]
  by (simp add: initial_twin_def sceneToScreen_def applyCamera_def ctx_scale_def
        ctx_translate_def new_context_def identity_matrix_def transformPoint_def)

lemma draw3DZone_zoom: "zoomLevel (snd (draw3DZone s z cx cy)) = zoomLevel s"
  by (simp add: draw3DZone_def Let_def split: option.splits prod.splits)

lemma zones_forEach_zoom: "zoomLevel (snd (zones_forEach s zs cx cy)) = zoomLevel s"
proof (induction zs arbitrary: s)
  case Nil
  then show ?case by simp
next
  case (Cons z zs)
  obtain out s' where d: "draw3DZone s z cx cy = (out, s')" by (cases "draw3DZone s z cx cy")
  then have "zoomLevel s' = zoomLevel s" using draw3DZone_zoom [of s z cx cy] by simp
  with Cons.IH [of s'] d show ?case by (cases out) simp_all
qed

lemma renderScene_zoom: "zoomLevel (snd (renderScene pr pg s)) = zoomLevel s"
proof (cases "farm_zones pr")
  case None
  then show ?thesis by (simp add: renderScene_def Let_def)
next
  case (Some zs)
  let ?s1 = "s\<lparr>canvas_ctx := applyCamera s (ctx_save (ctx_clearRect 0 0 (canvas_width pr) (canvas_height pr) (canvas_ctx s)))\<rparr>"
  obtain out s2 where f: "zones_forEach ?s1 zs (canvas_width pr / 2) (canvas_height pr * (7 / 10)) = (out, s2)"
    by (cases "zones_forEach ?s1 zs (canvas_width pr / 2) (canvas_height pr * (7 / 10))")
  then have "zoomLevel s2 = zoomLevel s"
    using zones_forEach_zoom [of ?s1 zs "canvas_width pr / 2" "canvas_height pr * (7 / 10)"] by simp
  with Some f show ?thesis
    by (cases out) (simp_all add: renderScene_def Let_def)
qed

lemma click_forEach_zoom: "zoomLevel (click_forEach pr pt areas s) = zoomLevel s"
  unfolding click_forEach_def
  by (induction areas arbitrary: s) (simp_all add: case_prod_beta)

lemma dispatch_zoom_bounds:
  assumes "1 / 2 \<le> zoomLevel s" and "zoomLevel s \<le> 2"
  shows "1 / 2 \<le> zoomLevel (dispatch s ev) \<and> zoomLevel (dispatch s ev) \<le> 2"
proof (cases ev)
  case (AnimationFrame pr pg)
  with assms show ?thesis by (simp add: renderScene_zoom)
next
  case (Click pr pg e)
  with assms show ?thesis
    by (simp add: handleClick_def click_forEach_zoom split: option.splits)
qed (use assms in \<open>auto simp add: handleMouseDown_def handleMouseMove_def handleMouseUp_def
      handleWheel_def zoomIn_def zoomOut_def handleReset_def toggleLabels_def toggleSensors_def
      clearSelection_def\<close>)

text \<open>
  Claim C4. From the initial state, after any sequence of events (zoom buttons, wheel,
  reset, and every other handler and animation frame as well) the zoom level lies
  between 0.5 and 2; so the scale factors of the camera transformation are never zero.
\<close>

theorem zoom_invariant:
  "1 / 2 \<le> zoomLevel (run initial_twin evs) \<and> zoomLevel (run initial_twin evs) \<le> 2
   \<and> m_a (ctm (applyCamera (run initial_twin evs) new_context)) \<noteq> 0
   \<and> m_d (ctm (applyCamera (run initial_twin evs) new_context)) \<noteq> 0"
proof -
  have b: "1 / 2 \<le> zoomLevel (run initial_twin evs) \<and> zoomLevel (run initial_twin evs) \<le> 2"
  proof (induction evs rule: rev_induct)
    case Nil
    show ?case by (simp add: run_Nil initial_twin_def)
  next
    case (snoc ev evs)
    then show ?case using dispatch_zoom_bounds [of "run initial_twin evs" ev]
      by (simp add: run_snoc)
  qed
  then have "zoomLevel (run initial_twin evs) \<noteq> 0" by auto
  with b show ?thesis
    by (simp add: applyCamera_def ctx_scale_def ctx_translate_def new_context_def identity_matrix_def)
qed

lemma clamp_up: "(1::real) \<le> t \<Longrightarrow> max (1 / 2) (min 2 (min 2 t * (11 / 10))) = min 2 (t * (11 / 10))"
  by (simp add: min_def max_def)

lemma clamp_down: "(0::real) < t \<Longrightarrow> t \<le> 1 \<Longrightarrow> max (1 / 2) (min 2 (max (1 / 2) t * (9 / 10))) = max (1 / 2) (t * (9 / 10))"
  by (simp add: min_def max_def)

lemma wheel_up_step:
  assumes "deltaY e < 0" and "zoomLevel s = min 2 ((11 / 10) ^ n)"
  shows "zoomLevel (handleWheel e s) = min 2 ((11 / 10) ^ Suc n)"
proof -
  have p: "(1::real) \<le> (11 / 10) ^ n" by (rule one_le_power) simp
  have "zoomLevel (handleWheel e s) = max (1 / 2) (min 2 (min 2 ((11 / 10) ^ n) * (11 / 10)))"
    using assms by (simp add: handleWheel_def)
  also have "\<dots> = min 2 ((11 / 10) ^ n * (11 / 10))"
    using p by (rule clamp_up)
  finally show ?thesis by (simp add: mult.commute)
qed

lemma wheel_down_step:
  assumes "0 < deltaY e" and "zoomLevel s = max (1 / 2) ((9 / 10) ^ n)"
  shows "zoomLevel (handleWheel e s) = max (1 / 2) ((9 / 10) ^ Suc n)"
proof -
  have p: "(9 / 10 :: real) ^ n \<le> 1" by (rule power_le_one) simp_all
  have q: "(0::real) < (9 / 10) ^ n" by simp
  have "zoomLevel (handleWheel e s) = max (1 / 2) (min 2 (max (1 / 2) ((9 / 10) ^ n) * (9 / 10)))"
    using assms by (simp add: handleWheel_def)
  also have "\<dots> = max (1 / 2) ((9 / 10) ^ n * (9 / 10))"
    using q p by (rule clamp_down)
  finally show ?thesis by (simp add: mult.commute)
qed

text \<open>
  Claim C5. From a zoom level of 1, \<open>n\<close> wheel events with negative \<open>deltaY\<close> (wheel up)
  lead to the zoom level \<open>min 2 (1.1 ^ n)\<close>, and \<open>n\<close> wheel events with positive
  \<open>deltaY\<close> (wheel down) lead to \<open>max 0.5 (0.9 ^ n)\<close>.
\<close>

theorem wheel_events_zoom:
  assumes "zoomLevel s = 1"
    and "\<forall>e \<in> set ups. deltaY e < 0"
    and "\<forall>e \<in> set downs. 0 < deltaY e"
  shows "zoomLevel (run s (map Wheel ups)) = min 2 ((11 / 10) ^ length ups)
       \<and> zoomLevel (run s (map Wheel downs)) = max (1 / 2) ((9 / 10) ^ length downs)"
proof
  from assms(2) show "zoomLevel (run s (map Wheel ups)) = min 2 ((11 / 10) ^ length ups)"
  proof (induction ups rule: rev_induct)
    case Nil
    show ?case using assms(1) by (simp add: run_Nil)
  next
    case (snoc e es)
    then show ?case using wheel_up_step [of e "run s (map Wheel es)" "length es"]
      by (simp add: run_snoc)
  qed
  from assms(3) show "zoomLevel (run s (map Wheel downs)) = max (1 / 2) ((9 / 10) ^ length downs)"
  proof (induction downs rule: rev_induct)
    case Nil
    show ?case using assms(1) by (simp add: run_Nil)
  next
    case (snoc e es)
    then show ?case using wheel_down_step [of e "run s (map Wheel es)" "length es"]
      by (simp add: run_snoc)
  qed
qed

theorem wheel_events_zoom_witness:
  "zoomLevel initial_twin = 1
   \<and> deltaY \<lparr>deltaY = - 100\<rparr> < 0 \<and> 0 < deltaY \<lparr>deltaY = 100\<rparr>
   \<and> zoomLevel (run initial_twin (map Wheel (replicate 8 \<lparr>deltaY = - 100\<rparr>))) = 2
   \<and> zoomLevel (run initial_twin (map Wheel (replicate 7 \<lparr>deltaY = 100\<rparr>))) = 1 / 2"
  using wheel_events_zoom [of initial_twin "replicate 8 \<lparr>deltaY = - 100\<rparr>"
          "replicate 7 \<lparr>deltaY = 100\<rparr>"]
  by (simp add: initial_twin_def power_divide)

subsection \<open>Dragging\<close>

text \<open>
  Pointer down at (50, 50), pointer move to (80, 70), pointer up: the pan offset grows by
  exactly (30, 20), and these three handlers leave the selection, the hover, the hit
  areas and the list of callback invocations as they were.
\<close>

lemma drag_gesture_pans:
  "let s' = run s [MouseDown \<lparr>clientX = 50, clientY = 50\<rparr>,
                   MouseMove pr pg \<lparr>clientX = 80, clientY = 70\<rparr>,
                   MouseUp]
   in panOffset s' = (fst (panOffset s) + 30, snd (panOffset s) + 20)
      \<and> selectedZone s' = selectedZone s
      \<and> onZoneClick_calls s' = onZoneClick_calls s
      \<and> hoveredZone s' = hoveredZone s
      \<and> zoneHitAreas s' = zoneHitAreas s
      \<and> \<not> isDragging s'"
  by (simp add: run_def handleMouseDown_def handleMouseMove_def handleMouseUp_def)

text \<open>
  The guard of \<^verbatim>\<open>handleClick\<close> reads the flag that \<^verbatim>\<open>handleMouseUp\<close> clears: the click
  event that follows the pointer-up of a drag is handled like any other click.
\<close>

lemma click_after_pointer_up:
  "handleClick pr pg e (handleMouseUp s) =
     (if canvas_mounted pg
      then (case mousePosition pr pg e of
              None \<Rightarrow> handleMouseUp s
            | Some m \<Rightarrow>
                click_forEach pr (screenToScene s m) (zoneHitAreas s) (handleMouseUp s))
      else handleMouseUp s)"
  by (simp add: handleClick_def handleMouseUp_def screenToScene_def split: option.splits)

subsection \<open>Reset\<close>

text \<open>
  Claim C7, as the code has it. After a reset the zoom level is 1, the pan offset is
  (100, 50) and no zone is selected; the hovered zone is left as it was.
\<close>

theorem handleReset_state:
  "zoomLevel (handleReset s) = 1 \<and> panOffset (handleReset s) = (100, 50)
   \<and> selectedZone (handleReset s) = None \<and> hoveredZone (handleReset s) = hoveredZone s"
  by (simp add: handleReset_def)

subsection \<open>The hit-area map\<close>

lemma map_of_map_set: "map_of (map_set k v m) = (map_of m)(k \<mapsto> v)"
  by (induction m) (auto simp add: fun_eq_iff)

lemma keys_map_set:
  "map fst (map_set k v m) = (if k \<in> fst ` set m then map fst m else map fst m @ [k])"
  by (induction m) auto

lemma distinct_map_set: "distinct (map fst m) \<Longrightarrow> distinct (map fst (map_set k v m))"
  by (simp add: keys_map_set)

lemma one_entry:
  "distinct (map fst m) \<Longrightarrow> map_of m k = Some v \<Longrightarrow> length (filter (\<lambda>e. fst e = k) m) = 1"
proof (induction m)
  case Nil
  then show ?case by simp
next
  case (Cons e m)
  show ?case
  proof (cases "fst e = k")
    case True
    with Cons.prems have "k \<notin> fst ` set m" by auto
    then have "filter (\<lambda>e. fst e = k) m = []" by (auto simp add: filter_empty_conv)
    with True show ?thesis by simp
  next
    case False
    with Cons show ?thesis by (cases e) auto
  qed
qed

subsection \<open>What a frame leaves behind\<close>

lemma radial_throws_iff:
  "createRadialGradient_throws 0 (max (width * (8 / 10)) (height * (8 / 10)))
     \<longleftrightarrow> width < 0 \<and> height < 0"
  by (auto simp add: createRadialGradient_throws_def max_def mult_less_0_iff)



lemma draw3DZone_outcome: "fst (draw3DZone s z cx cy) = zoneOutcome z"
proof (cases "finiteRect (position z)")
  case None
  then show ?thesis by (simp add: draw3DZone_def zoneOutcome_def)
next
  case (Some r)
  obtain baseX baseY width height where r: "r = (baseX, baseY, width, height)"
    by (cases r) auto
  show ?thesis
    using radial_throws_iff [of width height]
    by (simp add: draw3DZone_def zoneOutcome_def Some r Let_def)
qed

lemma draw3DZone_areas:
  "zoneHitAreas (snd (draw3DZone s z cx cy))
     = (case zoneOutcome z of
          Returned \<Rightarrow> map_set (zone_id z) (zoneHitArea z cx cy) (zoneHitAreas s)
        | Thrown e \<Rightarrow>
            if e = IndexSizeError
            then map_set (zone_id z) (zoneHitArea z cx cy) (zoneHitAreas s)
            else zoneHitAreas s)"
proof (cases "finiteRect (position z)")
  case None
  then show ?thesis by (simp add: draw3DZone_def zoneOutcome_def)
next
  case (Some r)
  obtain baseX baseY width height where r: "r = (baseX, baseY, width, height)"
    by (cases r) auto
  show ?thesis
    using radial_throws_iff [of width height]
    by (simp add: draw3DZone_def zoneOutcome_def zoneHitArea_def Some r Let_def)
qed


lemma drawnToTheEnd_iff: "drawnToTheEnd z \<longleftrightarrow> zoneOutcome z = Returned"
proof (cases "finiteRect (position z)")
  case None
  then show ?thesis by (simp add: drawnToTheEnd_def zoneOutcome_def)
next
  case (Some r)
  obtain baseX baseY width height where r: "r = (baseX, baseY, width, height)"
    by (cases r) auto
  show ?thesis
    by (auto simp add: drawnToTheEnd_def zoneOutcome_def Some r sideColor_def topColor_def
          Let_def split: option.splits)
qed

lemma storeZones_Nil: "storeZones [] cx cy m = m"
  by (simp add: storeZones_def)

lemma storeZones_Cons: "storeZones (z # zs) cx cy m = storeZones zs cx cy (map_set (zone_id z) (zoneHitArea z cx cy) m)"
  by (simp add: storeZones_def)

lemma storeZones_snoc: "storeZones (zs @ [z]) cx cy m = map_set (zone_id z) (zoneHitArea z cx cy) (storeZones zs cx cy m)"
  by (simp add: storeZones_def)

lemma storeZones_lookup:
  "map_of (storeZones zs cx cy m) k =
     (case lastZoneWithId k zs of Some z \<Rightarrow> Some (zoneHitArea z cx cy) | None \<Rightarrow> map_of m k)"
  by (induction zs rule: rev_induct)
     (simp_all add: storeZones_Nil storeZones_snoc map_of_map_set lastZoneWithId_def)

lemma storeZones_distinct: "distinct (map fst m) \<Longrightarrow> distinct (map fst (storeZones zs cx cy m))"
  by (induction zs rule: rev_induct) (simp_all add: storeZones_Nil storeZones_snoc distinct_map_set)

lemma lastZoneWithId_None: "k \<notin> zone_id ` set zs \<Longrightarrow> lastZoneWithId k zs = None"
  by (auto simp add: lastZoneWithId_def find_None_iff)

lemma find_Some_member: "find P xs = Some x \<Longrightarrow> P x \<and> x \<in> set xs"
  by (induction xs) (auto split: if_splits)

lemma lastZoneWithId_Some:
  "z \<in> set zs \<Longrightarrow> \<exists>z'. lastZoneWithId (zone_id z) zs = Some z' \<and> z' \<in> set zs \<and> zone_id z' = zone_id z"
proof -
  assume "z \<in> set zs"
  then have "lastZoneWithId (zone_id z) zs \<noteq> None"
    by (auto simp add: lastZoneWithId_def find_None_iff)
  then obtain z' where f: "find (\<lambda>u. zone_id u = zone_id z) (rev zs) = Some z'"
    by (auto simp add: lastZoneWithId_def)
  then have "zone_id z' = zone_id z \<and> z' \<in> set (rev zs)"
    by (rule find_Some_member)
  with f show ?thesis by (simp add: lastZoneWithId_def)
qed

lemma attempted_subset: "set (attempted zs) \<subseteq> set zs"
  by (induction zs) (auto split: outcome.splits if_splits)

lemma attempted_all: "\<forall>z \<in> set zs. zoneOutcome z = Returned \<Longrightarrow> attempted zs = zs"
  by (induction zs) auto

lemma draw3DZone_eq:
  "draw3DZone s z cx cy = (zoneOutcome z, snd (draw3DZone s z cx cy))"
  using draw3DZone_outcome [of s z cx cy] by (cases "draw3DZone s z cx cy") simp

lemma zones_forEach_Cons:
  "zones_forEach s (z # zs) cx cy =
     (case zoneOutcome z of
        Returned \<Rightarrow> zones_forEach (snd (draw3DZone s z cx cy)) zs cx cy
      | Thrown e \<Rightarrow> (Thrown e, snd (draw3DZone s z cx cy)))"
  by (subst zones_forEach.simps, subst draw3DZone_eq) (simp split: outcome.splits)

declare zones_forEach.simps(2) [simp del]

lemma zones_forEach_outcome:
  "fst (zones_forEach s zs cx cy) = Returned \<longleftrightarrow> (\<forall>z \<in> set zs. zoneOutcome z = Returned)"
proof (induction zs arbitrary: s)
  case Nil
  show ?case by simp
next
  case (Cons z zs)
  show ?case
    by (cases "zoneOutcome z") (simp_all add: zones_forEach_Cons Cons.IH)
qed

lemma zones_forEach_areas:
  "zoneHitAreas (snd (zones_forEach s zs cx cy)) = storeZones (attempted zs) cx cy (zoneHitAreas s)"
proof (induction zs arbitrary: s)
  case Nil
  show ?case by (simp add: storeZones_Nil)
next
  case (Cons z zs)
  show ?case
    by (cases "zoneOutcome z")
       (simp_all add: zones_forEach_Cons Cons.IH storeZones_Cons storeZones_Nil draw3DZone_areas)
qed


lemma draw3DZone_camera: "camera_of (snd (draw3DZone s z cx cy)) = camera_of s"
  by (simp add: draw3DZone_def Let_def camera_of_def split: option.splits prod.splits)

lemma zones_forEach_camera: "camera_of (snd (zones_forEach s zs cx cy)) = camera_of s"
proof (induction zs arbitrary: s)
  case Nil
  show ?case by simp
next
  case (Cons z zs)
  show ?case
    by (cases "zoneOutcome z") (simp_all add: zones_forEach_Cons Cons.IH draw3DZone_camera)
qed

lemma renderScene_unfold:
  assumes "canvas_mounted pg" and "context_available pg"
  shows "renderScene pr pg s =
     (case zones_forEach (frameStart pr s) (zones_of pr) (centerX_of pr) (centerY_of pr) of
        (Thrown e, s2) \<Rightarrow> (Thrown e, s2)
      | (Returned, s2) \<Rightarrow> (Returned, s2\<lparr>canvas_ctx := ctx_restore (canvas_ctx s2)\<rparr>))"
  using assms
  by (cases "farm_zones pr") (simp_all add: renderScene_def Let_def zones_of_def frameStart_def centerX_of_def centerY_of_def)

lemma renderScene_unmounted:
  "\<not> (canvas_mounted pg \<and> context_available pg) \<Longrightarrow> renderScene pr pg s = (Returned, s)"
  by (auto simp add: renderScene_def)

lemma renderScene_outcome:
  assumes "canvas_mounted pg" and "context_available pg"
  shows "fst (renderScene pr pg s) = Returned
     \<longleftrightarrow> (\<forall>z \<in> set (zones_of pr). zoneOutcome z = Returned)"
proof -
  let ?r = "zones_forEach (frameStart pr s) (zones_of pr) (centerX_of pr) (centerY_of pr)"
  have "fst (renderScene pr pg s) = fst ?r"
    by (simp add: renderScene_unfold [OF assms] split: prod.splits outcome.splits)
  then show ?thesis by (simp add: zones_forEach_outcome)
qed

lemma renderScene_areas:
  "zoneHitAreas (snd (renderScene pr pg s))
     = (if canvas_mounted pg \<and> context_available pg
        then storeZones (attempted (zones_of pr)) (centerX_of pr)
               (centerY_of pr) (zoneHitAreas s)
        else zoneHitAreas s)"
proof (cases "canvas_mounted pg \<and> context_available pg")
  case False
  then have "renderScene pr pg s = (Returned, s)" by (rule renderScene_unmounted)
  with False show ?thesis by auto
next
  case True
  let ?r = "zones_forEach (frameStart pr s) (zones_of pr) (centerX_of pr) (centerY_of pr)"
  have "zoneHitAreas (snd (renderScene pr pg s)) = zoneHitAreas (snd ?r)"
    using True by (simp add: renderScene_unfold split: prod.splits outcome.splits)
  then show ?thesis using True by (simp add: zones_forEach_areas frameStart_def)
qed

lemma renderScene_camera: "camera_of (snd (renderScene pr pg s)) = camera_of s"
proof (cases "canvas_mounted pg \<and> context_available pg")
  case False
  then have "renderScene pr pg s = (Returned, s)" by (rule renderScene_unmounted)
  then show ?thesis by simp
next
  case True
  let ?r = "zones_forEach (frameStart pr s) (zones_of pr) (centerX_of pr) (centerY_of pr)"
  have "camera_of (snd (renderScene pr pg s)) = camera_of (snd ?r)"
    using True by (simp add: renderScene_unfold camera_of_def split: prod.splits outcome.splits)
  also have "\<dots> = camera_of (frameStart pr s)" by (rule zones_forEach_camera)
  finally show ?thesis by (simp add: camera_of_def frameStart_def)
qed


subsection \<open>Hit areas after a frame\<close>

lemma click_forEach_areas: "zoneHitAreas (click_forEach pr pt areas s) = zoneHitAreas s"
  unfolding click_forEach_def
  by (induction areas arbitrary: s) (simp_all add: case_prod_beta)

lemma dispatch_distinct:
  assumes "distinct (map fst (zoneHitAreas s))"
  shows "distinct (map fst (zoneHitAreas (dispatch s ev)))"
proof (cases ev)
  case (AnimationFrame pr pg)
  with assms show ?thesis by (simp add: renderScene_areas storeZones_distinct)
next
  case (Click pr pg e)
  with assms show ?thesis
    by (simp add: handleClick_def click_forEach_areas split: option.splits)
qed (use assms in \<open>simp_all add: handleMouseDown_def handleMouseMove_def handleMouseUp_def
      handleWheel_def zoomIn_def zoomOut_def handleReset_def toggleLabels_def toggleSensors_def
      clearSelection_def\<close>)

lemma reachable_distinct: "distinct (map fst (zoneHitAreas (run initial_twin evs)))"
proof (induction evs rule: rev_induct)
  case Nil
  show ?case by (simp add: run_Nil initial_twin_def)
next
  case (snoc ev evs)
  then show ?case by (simp add: run_snoc dispatch_distinct)
qed

lemma attempted_lookup_other:
  "k \<notin> zone_id ` set zs \<Longrightarrow> lastZoneWithId k (attempted zs) = None"
  using attempted_subset [of zs] by (intro lastZoneWithId_None) auto

text \<open>
  Claim C2, as the code has it. In every reachable state the map holds at most one hit
  area per zone id, and so it does after a further frame. A frame never removes an
  entry: for every zone id that is not in the snapshot, the map holds after the frame
  what it held before. A frame that completes leaves exactly one hit area for every zone
  id of its snapshot, the one computed from the last zone of the snapshot with that id.
\<close>

theorem renderScene_hit_regions:
  assumes "canvas_mounted pg" and "context_available pg"
  shows "let s = run initial_twin evs; s' = snd (renderScene pr pg s) in
     distinct (map fst (zoneHitAreas s))
     \<and> distinct (map fst (zoneHitAreas s'))
     \<and> (\<forall>k. k \<notin> zone_id ` set (zones_of pr) \<longrightarrow>
            map_of (zoneHitAreas s') k = map_of (zoneHitAreas s) k)
     \<and> (fst (renderScene pr pg s) = Returned \<longrightarrow>
          (\<forall>z \<in> set (zones_of pr).
             length (filter (\<lambda>e. fst e = zone_id z) (zoneHitAreas s')) = 1
             \<and> (\<exists>z'. lastZoneWithId (zone_id z) (zones_of pr) = Some z'
                    \<and> map_of (zoneHitAreas s') (zone_id z)
                        = Some (zoneHitArea z' (centerX_of pr) (centerY_of pr)))))"
proof -
  let ?s = "run initial_twin evs"
  let ?s' = "snd (renderScene pr pg ?s)"
  have areas: "zoneHitAreas ?s' = storeZones (attempted (zones_of pr)) (centerX_of pr) (centerY_of pr) (zoneHitAreas ?s)"
    using assms by (simp add: renderScene_areas)
  have d: "distinct (map fst (zoneHitAreas ?s))" by (rule reachable_distinct)
  have d': "distinct (map fst (zoneHitAreas ?s'))"
    unfolding areas using d by (rule storeZones_distinct)
  have stale: "map_of (zoneHitAreas ?s') k = map_of (zoneHitAreas ?s) k"
    if "k \<notin> zone_id ` set (zones_of pr)" for k
    unfolding areas by (simp add: storeZones_lookup attempted_lookup_other [OF that])
  have drawn: "length (filter (\<lambda>e. fst e = zone_id z) (zoneHitAreas ?s')) = 1
             \<and> (\<exists>z'. lastZoneWithId (zone_id z) (zones_of pr) = Some z'
                    \<and> map_of (zoneHitAreas ?s') (zone_id z)
                        = Some (zoneHitArea z' (centerX_of pr) (centerY_of pr)))"
    if out: "fst (renderScene pr pg ?s) = Returned" and z: "z \<in> set (zones_of pr)" for z
  proof -
    have "\<forall>z \<in> set (zones_of pr). zoneOutcome z = Returned"
      using out assms by (simp add: renderScene_outcome)
    then have all: "attempted (zones_of pr) = zones_of pr" by (rule attempted_all)
    obtain z' where z': "lastZoneWithId (zone_id z) (zones_of pr) = Some z'"
      using lastZoneWithId_Some [OF z] by blast
    have l: "map_of (zoneHitAreas ?s') (zone_id z) = Some (zoneHitArea z' (centerX_of pr) (centerY_of pr))"
      unfolding areas all by (simp add: storeZones_lookup z')
    from one_entry [OF d' l] z' l show ?thesis by blast
  qed
  show ?thesis
    unfolding Let_def using d d' stale drawn by blast
qed


subsection \<open>The even-odd test on a projected rectangle\<close>

lemma crossing_x:
  fixes k :: real
  assumes "s2 \<noteq> s1"
  shows "(d2 * k + cx - (d1 * k + cx)) * ((s / 2 - 30 + cy) - (s1 / 2 - 30 + cy))
           / ((s2 / 2 - 30 + cy) - (s1 / 2 - 30 + cy)) + (d1 * k + cx)
         = k * ((d2 - d1) * (s - s1) / (s2 - s1) + d1) + cx"
proof -
  from assms have nz: "s2 - s1 \<noteq> 0" by simp
  have n1: "d2 * k + cx - (d1 * k + cx) = k * (d2 - d1)"
    by (simp add: algebra_simps)
  have n2: "(s / 2 - 30 + cy) - (s1 / 2 - 30 + cy) = (s - s1) / 2"
    by (simp add: field_simps)
  have n3: "(s2 / 2 - 30 + cy) - (s1 / 2 - 30 + cy) = (s2 - s1) / 2"
    by (simp add: field_simps)
  have "k * (d2 - d1) * ((s - s1) / 2) / ((s2 - s1) / 2) = k * ((d2 - d1) * (s - s1) / (s2 - s1))"
    using nz by simp
  then show ?thesis
    unfolding n1 n2 n3 by (simp add: algebra_simps)
qed

lemma intersect_iso_edge:
  fixes k :: real
  assumes k: "0 < k" and ne: "a1 + b1 \<noteq> a2 + b2"
  shows "intersect ((a - b) * k + cx, (a + b) / 2 - 30 + cy)
           ((a1 - b1) * k + cx, (a1 + b1) / 2 - 30 + cy)
           ((a2 - b2) * k + cx, (a2 + b2) / 2 - 30 + cy)
     = Inr (((a + b < a1 + b1) \<noteq> (a + b < a2 + b2))
            \<and> a - b < ((a2 - b2) - (a1 - b1)) * ((a + b) - (a1 + b1)) / ((a2 + b2) - (a1 + b1))
                        + (a1 - b1))"
proof -
  have nz: "(a2 + b2) / 2 - 30 + cy - ((a1 + b1) / 2 - 30 + cy) \<noteq> 0"
    using ne by simp
  have x: "((a2 - b2) * k + cx - ((a1 - b1) * k + cx)) * (((a + b) / 2 - 30 + cy) - ((a1 + b1) / 2 - 30 + cy))
           / (((a2 + b2) / 2 - 30 + cy) - ((a1 + b1) / 2 - 30 + cy)) + ((a1 - b1) * k + cx)
         = k * (((a2 - b2) - (a1 - b1)) * ((a + b) - (a1 + b1)) / ((a2 + b2) - (a1 + b1)) + (a1 - b1)) + cx"
    using ne by (intro crossing_x) simp
  have lt: "(a - b) * k + cx < k * r + cx \<longleftrightarrow> a - b < r" for r
    using k by (simp add: mult.commute)
  show ?thesis
    unfolding intersect_def Let_def fst_conv snd_conv checked_div_def
    using nz by (simp only: x lt if_False sum.case) auto
qed

lemma pip_quad:
  assumes "intersect pt c0 c3 = Inr e0" and "intersect pt c1 c0 = Inr e1"
    and "intersect pt c2 c1 = Inr e2" and "intersect pt c3 c2 = Inr e3"
  shows "isPointInPolygon pt [c0, c1, c2, c3] = Inr ((((False \<noteq> e0) \<noteq> e1) \<noteq> e2) \<noteq> e3)"
  using assms
  by (simp add: isPointInPolygon_def pip_loop.simps read_at_def)

lemma roof_edges:
  fixes k :: real
  assumes k: "0 < k" and w: "0 < w" and h: "0 < h"
  shows "intersect ((a - b) * k + cx, (a + b) / 2 - 30 + cy)
           ((x - y) * k + cx, (x + y) / 2 - 30 + cy)
           ((x - (y + h)) * k + cx, (x + (y + h)) / 2 - 30 + cy)
         = Inr (x + y \<le> a + b \<and> a + b < x + y + h \<and> a < x)"
    and "intersect ((a - b) * k + cx, (a + b) / 2 - 30 + cy)
           ((x + w - y) * k + cx, (x + w + y) / 2 - 30 + cy)
           ((x - y) * k + cx, (x + y) / 2 - 30 + cy)
         = Inr (x + y \<le> a + b \<and> a + b < x + w + y \<and> y < b)"
    and "intersect ((a - b) * k + cx, (a + b) / 2 - 30 + cy)
           ((x + w - (y + h)) * k + cx, (x + w + (y + h)) / 2 - 30 + cy)
           ((x + w - y) * k + cx, (x + w + y) / 2 - 30 + cy)
         = Inr (x + w + y \<le> a + b \<and> a + b < x + w + y + h \<and> a < x + w)"
    and "intersect ((a - b) * k + cx, (a + b) / 2 - 30 + cy)
           ((x - (y + h)) * k + cx, (x + (y + h)) / 2 - 30 + cy)
           ((x + w - (y + h)) * k + cx, (x + w + (y + h)) / 2 - 30 + cy)
         = Inr (x + y + h \<le> a + b \<and> a + b < x + w + y + h \<and> y + h < b)"
proof -
  have q0: "(x - (y + h) - (x - y)) * (a + b - (x + y)) / (x + (y + h) - (x + y)) + (x - y)
      = 2 * x - a - b"
    using h by (simp add: field_simps)
  have q1: "(x - y - (x + w - y)) * (a + b - (x + w + y)) / (x + y - (x + w + y)) + (x + w - y)
      = a + b - 2 * y"
    using w by (simp add: field_simps)
  have q2: "(x + w - y - (x + w - (y + h))) * (a + b - (x + w + (y + h))) / (x + w + y - (x + w + (y + h)))
        + (x + w - (y + h)) = 2 * (x + w) - a - b"
    using h by (simp add: field_simps)
  have q3: "(x + w - (y + h) - (x - (y + h))) * (a + b - (x + (y + h))) / (x + w + (y + h) - (x + (y + h)))
        + (x - (y + h)) = a + b - 2 * (y + h)"
    using w by (simp add: field_simps)
  show "intersect ((a - b) * k + cx, (a + b) / 2 - 30 + cy)
           ((x - y) * k + cx, (x + y) / 2 - 30 + cy)
           ((x - (y + h)) * k + cx, (x + (y + h)) / 2 - 30 + cy)
         = Inr (x + y \<le> a + b \<and> a + b < x + y + h \<and> a < x)"
    using h by (subst intersect_iso_edge [OF k]) (auto simp add: q0)
  show "intersect ((a - b) * k + cx, (a + b) / 2 - 30 + cy)
           ((x + w - y) * k + cx, (x + w + y) / 2 - 30 + cy)
           ((x - y) * k + cx, (x + y) / 2 - 30 + cy)
         = Inr (x + y \<le> a + b \<and> a + b < x + w + y \<and> y < b)"
    using w by (subst intersect_iso_edge [OF k]) (auto simp add: q1)
  show "intersect ((a - b) * k + cx, (a + b) / 2 - 30 + cy)
           ((x + w - (y + h)) * k + cx, (x + w + (y + h)) / 2 - 30 + cy)
           ((x + w - y) * k + cx, (x + w + y) / 2 - 30 + cy)
         = Inr (x + w + y \<le> a + b \<and> a + b < x + w + y + h \<and> a < x + w)"
    using h by (subst intersect_iso_edge [OF k]) (auto simp add: q2)
  show "intersect ((a - b) * k + cx, (a + b) / 2 - 30 + cy)
           ((x - (y + h)) * k + cx, (x + (y + h)) / 2 - 30 + cy)
           ((x + w - (y + h)) * k + cx, (x + w + (y + h)) / 2 - 30 + cy)
         = Inr (x + y + h \<le> a + b \<and> a + b < x + w + y + h \<and> y + h < b)"
    using w by (subst intersect_iso_edge [OF k]) (auto simp add: q3)
qed

lemma iso_point:
  "(fst (toIsometric a b 30) + cx, snd (toIsometric a b 30) + cy)
     = ((a - b) * (sqrt 3 / 2) + cx, (a + b) / 2 - 30 + cy)"
  by (simp add: toIsometric_def cos_30 sin_30)

lemma roof_quad:
  assumes w: "0 < w" and h: "0 < h"
  shows "isPointInPolygon (fst (toIsometric a b 30) + cx, snd (toIsometric a b 30) + cy)
           (map (\<lambda>corner. (fst corner + cx, snd corner + cy)) (topCorners x y w h 30))
     = Inr ((((False \<noteq> (x + y \<le> a + b \<and> a + b < x + y + h \<and> a < x))
              \<noteq> (x + y \<le> a + b \<and> a + b < x + w + y \<and> y < b))
              \<noteq> (x + w + y \<le> a + b \<and> a + b < x + w + y + h \<and> a < x + w))
              \<noteq> (x + y + h \<le> a + b \<and> a + b < x + w + y + h \<and> y + h < b))"
proof -
  have k: "0 < sqrt 3 / 2" by simp
  note e = roof_edges [OF k w h, of a b cx cy x y]
  show ?thesis
    unfolding topCorners_def list.map iso_point
    by (rule pip_quad) (rule e)+
qed

lemma roof_inside:
  assumes "0 < w" and "0 < h" and "x < a" and "a < x + w" and "y < b" and "b < y + h"
  shows "isPointInPolygon (fst (toIsometric a b 30) + cx, snd (toIsometric a b 30) + cy)
           (map (\<lambda>corner. (fst corner + cx, snd corner + cy)) (topCorners x y w h 30)) = Inr True"
  unfolding roof_quad [OF assms(1,2)] using assms by auto

lemma roof_outside:
  assumes "0 < w" and "0 < h" and "a < x \<or> x + w < a \<or> b < y \<or> y + h < b"
  shows "isPointInPolygon (fst (toIsometric a b 30) + cx, snd (toIsometric a b 30) + cy)
           (map (\<lambda>corner. (fst corner + cx, snd corner + cy)) (topCorners x y w h 30)) = Inr False"
  unfolding roof_quad [OF assms(1,2)] using assms by auto

subsection \<open>Clicking a zone\<close>

lemma camera_round_trip:
  "zoomLevel s \<noteq> 0 \<Longrightarrow> screenToScene s (sceneToScreen s p) = p"
  by (simp add: sceneToScreen_def applyCamera_def ctx_scale_def ctx_translate_def
        new_context_def identity_matrix_def transformPoint_def screenToScene_def Let_def)

lemma finite_hit_area:
  assumes "finiteRect (position z) = Some (x0, y0, w0, h0)"
  shows "corners (zoneHitArea z cx cy)
     = map (\<lambda>corner. (fst corner + cx, snd corner + cy))
         (topCorners ((x0 - 400) * (8 / 10)) ((y0 - 300) * (8 / 10))
            (w0 * (8 / 10)) (h0 * (8 / 10)) 30)"
  by (simp add: zoneHitArea_def assms)

lemma roofPoint_eq:
  "roofPoint cx cy u v
     = (fst (toIsometric ((u - 400) * (8 / 10)) ((v - 300) * (8 / 10)) 30) + cx,
        snd (toIsometric ((u - 400) * (8 / 10)) ((v - 300) * (8 / 10)) 30) + cy)"
  by (simp add: roofPoint_def Let_def)

lemma hits_inside:
  assumes r: "finiteRect (position z) = Some (x0, y0, w0, h0)" and "0 < w0" and "0 < h0"
    and "x0 < u" and "u < x0 + w0" and "y0 < v" and "v < y0 + h0"
  shows "hits (roofPoint cx cy u v) (k, zoneHitArea z cx cy)"
proof -
  have "isPointInPolygon (roofPoint cx cy u v) (corners (zoneHitArea z cx cy)) = Inr True"
    unfolding finite_hit_area [OF r] roofPoint_eq
  proof (rule roof_inside)
    show "0 < w0 * (8 / 10)" "0 < h0 * (8 / 10)"
      using assms(2,3) by simp_all
    show "(x0 - 400) * (8 / 10) < (u - 400) * (8 / 10)"
      using assms(4) by argo
    show "(u - 400) * (8 / 10) < (x0 - 400) * (8 / 10) + w0 * (8 / 10)"
      using assms(5) by argo
    show "(y0 - 300) * (8 / 10) < (v - 300) * (8 / 10)"
      using assms(6) by argo
    show "(v - 300) * (8 / 10) < (y0 - 300) * (8 / 10) + h0 * (8 / 10)"
      using assms(7) by argo
  qed
  then show ?thesis by (simp add: hits_def)
qed

lemma hits_outside:
  assumes r: "finiteRect (position z) = Some (x0, y0, w0, h0)" and "0 < w0" and "0 < h0"
    and "u < x0 \<or> x0 + w0 < u \<or> v < y0 \<or> y0 + h0 < v"
  shows "\<not> hits (roofPoint cx cy u v) (k, zoneHitArea z cx cy)"
proof -
  have "isPointInPolygon (roofPoint cx cy u v) (corners (zoneHitArea z cx cy)) = Inr False"
    unfolding finite_hit_area [OF r] roofPoint_eq
  proof (rule roof_outside)
    show "0 < w0 * (8 / 10)" "0 < h0 * (8 / 10)"
      using assms(2,3) by simp_all
    show "(u - 400) * (8 / 10) < (x0 - 400) * (8 / 10)
        \<or> (x0 - 400) * (8 / 10) + w0 * (8 / 10) < (u - 400) * (8 / 10)
        \<or> (v - 300) * (8 / 10) < (y0 - 300) * (8 / 10)
        \<or> (y0 - 300) * (8 / 10) + h0 * (8 / 10) < (v - 300) * (8 / 10)"
      using assms(4) by argo
  qed
  then show ?thesis by (simp add: hits_def)
qed

lemma centroid_roof:
  assumes r: "finiteRect (position z) = Some (x0, y0, w0, h0)"
  shows "centroid (corners (zoneHitArea z cx cy)) = roofPoint cx cy (x0 + w0 / 2) (y0 + h0 / 2)"
  unfolding finite_hit_area [OF r] roofPoint_eq
  by (simp add: centroid_def topCorners_def toIsometric_def cos_30 sin_30 field_simps)

lemma hits_eq:
  "hits pt = (\<lambda>(zoneId, hitArea). isPointInPolygon pt (corners hitArea) = Inr True)"
  by (auto simp add: fun_eq_iff hits_def)

lemma click_forEach_snoc:
  "click_forEach pr pt (areas @ [a]) s =
     (if hits pt a
      then (click_forEach pr pt areas s)\<lparr>selectedZone := Some (fst a),
             onZoneClick_calls := onZoneClick_calls (click_forEach pr pt areas s)
                @ (if has_onZoneClick pr then [fst a] else [])\<rparr>
      else click_forEach pr pt areas s)"
  by (cases a) (simp add: click_forEach_def hits_def)

lemma click_forEach_calls:
  "onZoneClick_calls (click_forEach pr pt areas s)
     = onZoneClick_calls s @ (if has_onZoneClick pr then map fst (filter (hits pt) areas) else [])"
proof (induction areas rule: rev_induct)
  case Nil
  show ?case by (simp add: click_forEach_def)
next
  case (snoc a areas)
  then show ?case by (simp add: click_forEach_snoc)
qed

lemma click_forEach_selected:
  "selectedZone (click_forEach pr pt areas s)
     = (if filter (hits pt) areas = [] then selectedZone s
        else Some (fst (last (filter (hits pt) areas))))"
proof (induction areas rule: rev_induct)
  case Nil
  show ?case by (simp add: click_forEach_def)
next
  case (snoc a areas)
  then show ?case by (simp add: click_forEach_snoc)
qed

lemma nonDragClick_eq:
  assumes "canvas_mounted pg" and "mousePosition pr pg e = Some m"
  shows "nonDragClick pr pg e s
     = click_forEach pr (screenToScene s m) (zoneHitAreas s)
         (s\<lparr>dragStart := (clientX e, clientY e), isDragging := False\<rparr>)"
  using assms
  by (simp add: nonDragClick_def run_def handleMouseDown_def handleMouseUp_def handleClick_def
        screenToScene_def)

lemma only_hit:
  assumes "distinct (map fst m)" and "map_of m k = Some v" and "P (k, v)"
    and "\<forall>entry \<in> set m. fst entry \<noteq> k \<longrightarrow> \<not> P entry"
  shows "filter P m = [(k, v)]"
  using assms
proof (induction m)
  case Nil
  then show ?case by simp
next
  case (Cons entry m)
  show ?case
  proof (cases "fst entry = k")
    case True
    with Cons.prems(2) have e: "entry = (k, v)" by (cases entry) simp
    from True Cons.prems(1) have "k \<notin> fst ` set m" by simp
    then have "\<forall>x \<in> set m. fst x \<noteq> k" by force
    with Cons.prems(4) have "filter P m = []" by (auto simp add: filter_empty_conv)
    with e Cons.prems(3) show ?thesis by simp
  next
    case False
    with Cons.prems have "filter P m = [(k, v)]"
      by (intro Cons.IH) (auto split: if_splits)
    moreover from False Cons.prems(4) have "\<not> P entry" by simp
    ultimately show ?thesis by simp
  qed
qed

lemma reachable_zoom:
  "1 / 2 \<le> zoomLevel (run initial_twin evs) \<and> zoomLevel (run initial_twin evs) \<le> 2"
proof (induction evs rule: rev_induct)
  case Nil
  show ?case by (simp add: run_Nil initial_twin_def)
next
  case (snoc ev evs)
  then show ?case using dispatch_zoom_bounds [of "run initial_twin evs" ev]
    by (simp add: run_snoc)
qed

lemma camera_of_fields:
  "camera_of s' = camera_of s \<Longrightarrow>
     selectedZone s' = selectedZone s \<and> hoveredZone s' = hoveredZone s
     \<and> zoomLevel s' = zoomLevel s \<and> panOffset s' = panOffset s
     \<and> isDragging s' = isDragging s \<and> onZoneClick_calls s' = onZoneClick_calls s"
  by (simp add: camera_of_def)

text \<open>
  Claim C1, as the code has it. A click that ends no drag calls the callback once for
  every hit area of the map that contains the camera-inverted pointer position, with that
  area's zone id and in the map's order, and it selects the last of them; when no hit
  area contains the point it calls nothing and leaves the selection. The hit area of a
  zone with positive width and height contains the roof point above every farm-space
  point strictly inside the zone's rectangle, the centroid of the area among them, and
  no roof point above a point strictly outside the rectangle. With zone \<open>A\<close> on the
  rectangle (0, 0, 100, 100) as the only zone of the latest frame, and with no other hit
  area of the map containing the centroid of \<open>A\<close>'s area, such a click at the screen
  position of that centroid selects \<open>A\<close> and calls the callback exactly once, with
  \<open>A\<close>.
\<close>

theorem nonDragClick_invokes_callback:
  assumes pg: "canvas_mounted pg" and m: "mousePosition pr pg e = Some m"
    and zoom: "1 / 2 \<le> zoomLevel s" "zoomLevel s \<le> 2"
    and rect: "finiteRect (position z) = Some (x0, y0, w0, h0)" "0 < w0" "0 < h0"
    and zA: "finiteRect (position zA) = Some (0, 0, 100, 100)" "zone_id zA = ''A''"
      "drawnToTheEnd zA"
    and prA: "farm_zones prA = Some [zA]" "has_onZoneClick prA"
    and pgA: "canvas_mounted pgA" "context_available pgA"
    and s1: "s1 = snd (renderScene prA pgA (run initial_twin evs))"
    and hA: "map_of (zoneHitAreas s1) ''A'' = Some hA"
    and others: "\<forall>entry \<in> set (zoneHitAreas s1).
                   fst entry \<noteq> ''A'' \<longrightarrow> \<not> hits (centroid (corners hA)) entry"
    and eA: "mousePosition prA pgA eA = Some (sceneToScreen s1 (centroid (corners hA)))"
  shows "onZoneClick_calls (nonDragClick pr pg e s)
           = onZoneClick_calls s @
              (if has_onZoneClick pr
               then map fst (filter (hits (screenToScene s m)) (zoneHitAreas s))
               else [])
       \<and> selectedZone (nonDragClick pr pg e s)
           = (if filter (hits (screenToScene s m)) (zoneHitAreas s) = [] then selectedZone s
              else Some (fst (last (filter (hits (screenToScene s m)) (zoneHitAreas s)))))
       \<and> (x0 < u \<and> u < x0 + w0 \<and> y0 < v \<and> v < y0 + h0
            \<longrightarrow> hits (roofPoint cx cy u v) (k, zoneHitArea z cx cy))
       \<and> (u < x0 \<or> x0 + w0 < u \<or> v < y0 \<or> y0 + h0 < v
            \<longrightarrow> \<not> hits (roofPoint cx cy u v) (k, zoneHitArea z cx cy))
       \<and> centroid (corners (zoneHitArea z cx cy)) = roofPoint cx cy (x0 + w0 / 2) (y0 + h0 / 2)
       \<and> selectedZone (nonDragClick prA pgA eA s1) = Some ''A''
       \<and> onZoneClick_calls (nonDragClick prA pgA eA s1) = onZoneClick_calls s1 @ [''A'']"
proof -
  have calls: "onZoneClick_calls (nonDragClick pr pg e s)
           = onZoneClick_calls s @
              (if has_onZoneClick pr
               then map fst (filter (hits (screenToScene s m)) (zoneHitAreas s))
               else [])"
    by (simp add: nonDragClick_eq [OF pg m] click_forEach_calls)
  have sel: "selectedZone (nonDragClick pr pg e s)
           = (if filter (hits (screenToScene s m)) (zoneHitAreas s) = [] then selectedZone s
              else Some (fst (last (filter (hits (screenToScene s m)) (zoneHitAreas s)))))"
    by (simp add: nonDragClick_eq [OF pg m] click_forEach_selected)
  have inside: "hits (roofPoint cx cy u v) (k, zoneHitArea z cx cy)"
    if "x0 < u \<and> u < x0 + w0 \<and> y0 < v \<and> v < y0 + h0"
    using that by (intro hits_inside [OF rect]) simp_all
  have outside: "\<not> hits (roofPoint cx cy u v) (k, zoneHitArea z cx cy)"
    if "u < x0 \<or> x0 + w0 < u \<or> v < y0 \<or> y0 + h0 < v"
    using that by (rule hits_outside [OF rect])
  have cen: "centroid (corners (zoneHitArea z cx cy)) = roofPoint cx cy (x0 + w0 / 2) (y0 + h0 / 2)"
    by (rule centroid_roof [OF rect(1)])
  let ?s0 = "run initial_twin evs"
  let ?area = "zoneHitArea zA (centerX_of prA) (centerY_of prA)"
  have zones: "zones_of prA = [zA]"
    by (simp add: zones_of_def prA(1))
  have out: "zoneOutcome zA = Returned"
    using zA(3) by (simp add: drawnToTheEnd_iff)
  have areas: "zoneHitAreas s1
      = storeZones [zA] (centerX_of prA) (centerY_of prA) (zoneHitAreas ?s0)"
    unfolding s1 using pgA by (simp add: renderScene_areas zones out)
  have d: "distinct (map fst (zoneHitAreas s1))"
    unfolding areas by (intro storeZones_distinct reachable_distinct)
  have "map_of (zoneHitAreas s1) ''A'' = Some ?area"
    unfolding areas by (simp add: storeZones_lookup lastZoneWithId_def zA(2))
  with hA have h_eq: "hA = ?area" by simp
  have c: "centroid (corners hA) = roofPoint (centerX_of prA) (centerY_of prA) 50 50"
    unfolding h_eq using centroid_roof [OF zA(1), of "centerX_of prA" "centerY_of prA"] by simp
  have hit: "hits (centroid (corners hA)) (''A'', hA)"
    unfolding c unfolding h_eq by (rule hits_inside [OF zA(1)]) simp_all
  have only: "filter (hits (centroid (corners hA))) (zoneHitAreas s1) = [(''A'', hA)]"
    using d hA hit others by (rule only_hit)
  have cam: "camera_of s1 = camera_of ?s0"
    unfolding s1 by (rule renderScene_camera)
  from camera_of_fields [OF cam] reachable_zoom [of evs] have z: "zoomLevel s1 \<noteq> 0"
    by auto
  have pt: "screenToScene s1 (sceneToScreen s1 (centroid (corners hA))) = centroid (corners hA)"
    using z by (rule camera_round_trip)
  have selA: "selectedZone (nonDragClick prA pgA eA s1) = Some ''A''"
    by (simp add: nonDragClick_eq [OF pgA(1) eA] click_forEach_selected pt only)
  have callsA: "onZoneClick_calls (nonDragClick prA pgA eA s1) = onZoneClick_calls s1 @ [''A'']"
    by (simp add: nonDragClick_eq [OF pgA(1) eA] click_forEach_calls pt only prA(2))
  from calls sel inside outside cen selA callsA show ?thesis by blast
qed

subsection \<open>The examples\<close>

lemma center_propsOf: "centerX_of (propsOf zs) = 500" "centerY_of (propsOf zs) = 490"
  by (simp_all add: centerX_of_def centerY_of_def canvas_width_def canvas_height_def propsOf_def)

lemma zones_of_propsOf: "zones_of (propsOf zs) = zs"
  by (simp add: zones_of_def propsOf_def)

lemma propsOf_fields: "farm_zones (propsOf zs) = Some zs" "has_onZoneClick (propsOf zs)"
  by (simp_all add: propsOf_def)

lemma page0_ready: "canvas_mounted page0" "context_available page0"
  by (simp_all add: page0_def)

lemma pageScrolled_ready: "canvas_mounted pageScrolled" "context_available pageScrolled"
  by (simp_all add: pageScrolled_def)

lemma example_ids:
  "zone_id zoneA = ''A''" "zone_id zoneP = ''P''" "zone_id zoneB = ''B''"
  "zone_id zoneN = ''N''" "zone_id zoneM = ''M''" "zone_id zoneW = ''W''" "zone_id zoneD = ''D''"
  by (simp_all add: zoneA_def zoneP_def zoneB_def zoneN_def zoneM_def zoneW_def zoneD_def)

lemma example_rects:
  "finiteRect (position zoneA) = Some (0, 0, 100, 100)"
  "finiteRect (position zoneP) = Some (0, 0, 100, 100)"
  "finiteRect (position zoneB) = Some (200, 100, 100, 100)"
  "finiteRect (position zoneN) = Some (0, 0, - 10, 50)"
  "finiteRect (position zoneM) = Some (0, 0, - 10, - 10)"
  "finiteRect (position zoneW) = None"
  by (simp_all add: finiteRect_def zoneA_def zoneP_def zoneB_def zoneN_def zoneM_def zoneW_def)

lemma example_outcomes:
  "zoneOutcome zoneA = Returned" "zoneOutcome zoneP = Returned" "zoneOutcome zoneB = Returned"
  "zoneOutcome zoneN = Returned" "zoneOutcome zoneM = Thrown IndexSizeError"
  "zoneOutcome zoneW = Thrown TypeError" "zoneOutcome zoneD = Thrown SyntaxError"
  by (simp_all add: zoneOutcome_def finiteRect_def sideColor_def topColor_def
        zoneA_def zoneP_def zoneB_def zoneN_def zoneM_def zoneW_def zoneD_def)

lemma frame_fields:
  "zoomLevel (snd (renderScene pr pg initial_twin)) = 1"
  "panOffset (snd (renderScene pr pg initial_twin)) = (100, 50)"
  "isDragging (snd (renderScene pr pg initial_twin)) = False"
  "selectedZone (snd (renderScene pr pg initial_twin)) = None"
  "hoveredZone (snd (renderScene pr pg initial_twin)) = None"
  "onZoneClick_calls (snd (renderScene pr pg initial_twin)) = []"
  using camera_of_fields [OF renderScene_camera [of pr pg initial_twin]]
  by (simp_all add: initial_twin_def)

lemma first_frame_areas:
  assumes "canvas_mounted pg" and "context_available pg" and "zoneOutcome z = Returned"
  shows "zoneHitAreas (snd (renderScene (propsOf [z]) pg initial_twin))
     = [(zone_id z, zoneHitArea z 500 490)]"
  using assms
  by (simp add: renderScene_areas zones_of_propsOf center_propsOf storeZones_def initial_twin_def)

lemma zoneA_centroid: "centroid (corners (zoneHitArea zoneA 500 490)) = (500 - 40 * sqrt 3, 220)"
  by (simp add: centroid_roof [OF example_rects(1)] roofPoint_def toIsometric_def cos_30 sin_30)

lemma centroidClick_point:
  "mousePosition (propsOf zs) page0 centroidClick = Some (600 - 40 * sqrt 3, 270)"
  by (simp add: mousePosition_def centroidClick_def canvas_width_def canvas_height_def
        propsOf_def page0_def)

lemma centroid_hits_A: "hits (500 - 40 * sqrt 3, 220) (k, zoneHitArea zoneA 500 490)"
proof -
  have "hits (roofPoint 500 490 50 50) (k, zoneHitArea zoneA 500 490)"
    by (rule hits_inside [OF example_rects(1)]) simp_all
  then show ?thesis
    by (simp add: roofPoint_def toIsometric_def cos_30 sin_30)
qed

lemma centroid_hits_P: "hits (500 - 40 * sqrt 3, 220) (k, zoneHitArea zoneP 500 490)"
proof -
  have "hits (roofPoint 500 490 50 50) (k, zoneHitArea zoneP 500 490)"
    by (rule hits_inside [OF example_rects(2)]) simp_all
  then show ?thesis
    by (simp add: roofPoint_def toIsometric_def cos_30 sin_30)
qed

theorem nonDragClick_invokes_callback_witness:
  "selectedZone (nonDragClick (propsOf [zoneA]) page0 centroidClick
      (snd (renderScene (propsOf [zoneA]) page0 (run initial_twin [])))) = Some ''A''
   \<and> onZoneClick_calls (nonDragClick (propsOf [zoneA]) page0 centroidClick
      (snd (renderScene (propsOf [zoneA]) page0 (run initial_twin [])))) = [''A'']
   \<and> hits (roofPoint 500 490 50 50) (''A'', zoneHitArea zoneA 500 490)
   \<and> \<not> hits (roofPoint 500 490 150 50) (''A'', zoneHitArea zoneA 500 490)
   \<and> centroid (corners (zoneHitArea zoneA 500 490)) = roofPoint 500 490 50 50"
proof -
  let ?s1 = "snd (renderScene (propsOf [zoneA]) page0 (run initial_twin []))"
  have s1: "?s1 = snd (renderScene (propsOf [zoneA]) page0 initial_twin)"
    by (simp add: run_Nil)
  have areas: "zoneHitAreas ?s1 = [(''A'', zoneHitArea zoneA 500 490)]"
    unfolding s1 using first_frame_areas [OF page0_ready example_outcomes(1)]
    by (simp add: example_ids)
  have zoom: "1 / 2 \<le> zoomLevel ?s1" "zoomLevel ?s1 \<le> 2"
    unfolding s1 by (simp_all add: frame_fields)
  have zA: "drawnToTheEnd zoneA"
    by (simp add: drawnToTheEnd_iff example_outcomes)
  have hA: "map_of (zoneHitAreas ?s1) ''A'' = Some (zoneHitArea zoneA 500 490)"
    by (simp add: areas)
  have others: "\<forall>entry \<in> set (zoneHitAreas ?s1).
      fst entry \<noteq> ''A'' \<longrightarrow> \<not> hits (centroid (corners (zoneHitArea zoneA 500 490))) entry"
    by (simp add: areas)
  have eA: "mousePosition (propsOf [zoneA]) page0 centroidClick
      = Some (sceneToScreen ?s1 (centroid (corners (zoneHitArea zoneA 500 490))))"
    unfolding s1
    by (simp add: centroidClick_point zoneA_centroid sceneToScreen_def applyCamera_def
          ctx_scale_def ctx_translate_def new_context_def identity_matrix_def transformPoint_def
          frame_fields)
  have c0: "onZoneClick_calls ?s1 = []"
    unfolding s1 by (simp add: frame_fields)
  note t = nonDragClick_invokes_callback [OF page0_ready(1) eA zoom example_rects(1) _ _
      example_rects(1) example_ids(1) zA propsOf_fields page0_ready refl hA others eA,
      where k = "''A''" and cx = 500 and cy = 490 and v = 50]
  from t [where u = 50] t [where u = 150] show ?thesis
    by (simp add: c0)
qed

text \<open>
  A frame with zone \<open>P\<close> only, then a frame with zone \<open>A\<close> only, on the same rectangle:
  the snapshot holds the single zone \<open>A\<close>, and a click that ends no drag, at the centre
  of \<open>A\<close>'s top face, calls the callback twice, with \<open>P\<close> and with \<open>A\<close>.
\<close>

theorem stale_double_call_counterexample:
  "zones_of (propsOf [zoneA]) = [zoneA]
   \<and> fst (renderScene (propsOf [zoneA]) page0
          (run initial_twin [AnimationFrame (propsOf [zoneP]) page0])) = Returned
   \<and> onZoneClick_calls (run initial_twin
          [AnimationFrame (propsOf [zoneP]) page0, AnimationFrame (propsOf [zoneA]) page0]) = []
   \<and> onZoneClick_calls (nonDragClick (propsOf [zoneA]) page0 centroidClick
        (run initial_twin
          [AnimationFrame (propsOf [zoneP]) page0, AnimationFrame (propsOf [zoneA]) page0]))
       = [''P'', ''A'']"
proof -
  let ?s1 = "snd (renderScene (propsOf [zoneP]) page0 initial_twin)"
  let ?s2 = "snd (renderScene (propsOf [zoneA]) page0 ?s1)"
  have run: "run initial_twin
      [AnimationFrame (propsOf [zoneP]) page0, AnimationFrame (propsOf [zoneA]) page0] = ?s2"
    by (simp add: run_def)
  have run1: "run initial_twin [AnimationFrame (propsOf [zoneP]) page0] = ?s1"
    by (simp add: run_def)
  have out: "fst (renderScene (propsOf [zoneA]) page0 ?s1) = Returned"
    by (simp add: renderScene_outcome page0_ready zones_of_propsOf example_outcomes)
  have areas: "zoneHitAreas ?s2 = [(''P'', zoneHitArea zoneP 500 490), (''A'', zoneHitArea zoneA 500 490)]"
    by (simp add: renderScene_areas page0_ready zones_of_propsOf center_propsOf
          example_outcomes example_ids storeZones_def initial_twin_def)
  have cam: "camera_of ?s2 = camera_of initial_twin"
    by (simp add: renderScene_camera)
  have f: "zoomLevel ?s2 = 1" "panOffset ?s2 = (100, 50)" "onZoneClick_calls ?s2 = []"
    using camera_of_fields [OF cam] by (simp_all add: initial_twin_def)
  have pt: "screenToScene ?s2 (600 - 40 * sqrt 3, 270) = (500 - 40 * sqrt 3, 220)"
    by (simp add: screenToScene_def f)
  have "onZoneClick_calls (nonDragClick (propsOf [zoneA]) page0 centroidClick ?s2) = [''P'', ''A'']"
    by (simp add: nonDragClick_eq [OF page0_ready(1) centroidClick_point] click_forEach_calls
          pt areas f centroid_hits_A centroid_hits_P propsOf_fields)
  with out f(3) show ?thesis
    by (simp add: run run1 zones_of_propsOf)
qed

text \<open>
  Claim C6, where the code departs from it. A frame with zone \<open>B\<close>, then pointer down
  at (50, 50), pointer move to (80, 70), pointer up, and the click event that follows
  the pointer-up at (80, 70), over the centre of \<open>B\<close>'s top face: the pan offset has
  grown by (30, 20), and the click that ends this drag has selected \<open>B\<close> and called
  the callback with \<open>B\<close>, where before the gesture nothing was selected and nothing
  called.
\<close>

theorem drag_then_click_selects:
  "let s = run initial_twin [AnimationFrame (propsOf [zoneB]) pageScrolled];
       s' = run s [MouseDown \<lparr>clientX = 50, clientY = 50\<rparr>,
                   MouseMove (propsOf [zoneB]) pageScrolled \<lparr>clientX = 80, clientY = 70\<rparr>,
                   MouseUp,
                   Click (propsOf [zoneB]) pageScrolled \<lparr>clientX = 80, clientY = 70\<rparr>]
   in selectedZone s = None \<and> onZoneClick_calls s = []
      \<and> panOffset s' = (fst (panOffset s) + 30, snd (panOffset s) + 20)
      \<and> selectedZone s' = Some ''B'' \<and> onZoneClick_calls s' = [''B'']"
proof -
  let ?s = "snd (renderScene (propsOf [zoneB]) pageScrolled initial_twin)"
  have areas: "zoneHitAreas ?s = [(''B'', zoneHitArea zoneB 500 490)]"
    using first_frame_areas [OF pageScrolled_ready example_outcomes(3)]
    by (simp add: example_ids)
  have m: "mousePosition (propsOf [zoneB]) pageScrolled \<lparr>clientX = 80, clientY = 70\<rparr>
      = Some (630, 410)"
    by (simp add: mousePosition_def canvas_width_def canvas_height_def propsOf_def
          pageScrolled_def)
  have "hits (roofPoint 500 490 250 150) (''B'', zoneHitArea zoneB 500 490)"
    by (rule hits_inside [OF example_rects(3)]) simp_all
  then have hit: "hits (500, 340) (''B'', zoneHitArea zoneB 500 490)"
    by (simp add: roofPoint_def toIsometric_def sin_30)
  show ?thesis
    using hit
    by (simp add: run_def handleMouseDown_def handleMouseMove_def handleMouseUp_def
          handleClick_def frame_fields pageScrolled_ready m screenToScene_def areas
          click_forEach_def hits_def propsOf_fields)
qed

text \<open>
  A frame with zone \<open>A\<close>, then the pointer moved over it, from the initial state: the
  zone is hovered, and it still is after a reset.
\<close>

theorem reset_keeps_hover_counterexample:
  "hoveredZone (handleReset (run initial_twin
      [AnimationFrame (propsOf [zoneA]) page0,
       MouseMove (propsOf [zoneA]) page0 centroidClick])) = Some ''A''"
proof -
  have areas: "zoneHitAreas (snd (renderScene (propsOf [zoneA]) page0 initial_twin))
      = [(''A'', zoneHitArea zoneA 500 490)]"
    using first_frame_areas [OF page0_ready example_outcomes(1)] by (simp add: example_ids)
  show ?thesis
    using centroid_hits_A [of "''A''"]
    by (simp add: run_def handleMouseMove_def handleReset_def frame_fields page0_ready
          centroidClick_point screenToScene_def areas hover_forEach_def hits_def)
qed

text \<open>
  A frame with zone \<open>B\<close> only, then a frame with zone \<open>A\<close> only: the second frame
  completes, and the map still holds the hit area of \<open>B\<close>.
\<close>

theorem stale_hit_region_counterexample:
  "zone_id ` set (zones_of (propsOf [zoneA])) = {''A''}
   \<and> fst (renderScene (propsOf [zoneA]) page0
          (run initial_twin [AnimationFrame (propsOf [zoneB]) page0])) = Returned
   \<and> map fst (zoneHitAreas (run initial_twin
          [AnimationFrame (propsOf [zoneB]) page0, AnimationFrame (propsOf [zoneA]) page0]))
       = [''B'', ''A'']
   \<and> map_of (zoneHitAreas (run initial_twin
          [AnimationFrame (propsOf [zoneB]) page0, AnimationFrame (propsOf [zoneA]) page0])) ''B''
       = Some (zoneHitArea zoneB 500 490)"
  by (simp add: run_def renderScene_areas renderScene_outcome page0_ready zones_of_propsOf
        center_propsOf example_outcomes example_ids storeZones_def initial_twin_def)

theorem renderScene_hit_regions_witness:
  "distinct (map fst (zoneHitAreas (snd (renderScene (propsOf [zoneA]) page0
      (run initial_twin [AnimationFrame (propsOf [zoneB]) page0])))))
   \<and> length (filter (\<lambda>e. fst e = ''A'') (zoneHitAreas (snd (renderScene (propsOf [zoneA]) page0
      (run initial_twin [AnimationFrame (propsOf [zoneB]) page0]))))) = 1
   \<and> map_of (zoneHitAreas (snd (renderScene (propsOf [zoneA]) page0
      (run initial_twin [AnimationFrame (propsOf [zoneB]) page0])))) ''B''
     = map_of (zoneHitAreas (run initial_twin [AnimationFrame (propsOf [zoneB]) page0])) ''B''"
proof -
  have out: "fst (renderScene (propsOf [zoneA]) page0
      (run initial_twin [AnimationFrame (propsOf [zoneB]) page0])) = Returned"
    by (simp add: renderScene_outcome page0_ready zones_of_propsOf example_outcomes)
  from renderScene_hit_regions [OF page0_ready(1,2),
      of "[AnimationFrame (propsOf [zoneB]) page0]" "propsOf [zoneA]"] out
  show ?thesis
    by (simp add: Let_def zones_of_propsOf example_ids)
qed



text \<open>
  Frames that are left early. With a zone whose width and height are both negative the
  radial gradient throws after two faces are filled and the hit area is stored; with a
  non-finite width the linear gradient throws before anything is filled or stored; with
  a non-finite soil moisture the colour stop throws after the front face is filled. In
  each case zone \<open>A\<close> behind the zone is not reached.
\<close>

lemma first_zone_throws:
  assumes "canvas_mounted pg" and "context_available pg" and "zoneOutcome z = Thrown e"
  shows "renderScene (propsOf (z # zs)) pg s
     = (Thrown e, snd (draw3DZone (frameStart (propsOf (z # zs)) s) z 500 490))"
  using assms
  by (simp add: renderScene_unfold zones_of_propsOf zones_forEach_Cons center_propsOf)

lemma empty_frame_start:
  "canvas_ctx (frameStart pr initial_twin)
     = \<lparr>ctm = \<lparr>m_a = 1, m_d = 1, m_e = 100, m_f = 50\<rparr>, saved = [identity_matrix],
        painted = [clearedRect pr initial_twin]\<rparr>"
  by (simp add: frameStart_def applyCamera_def ctx_scale_def ctx_translate_def ctx_save_def
        ctx_clearRect_def clearedRect_def initial_twin_def new_context_def identity_matrix_def)

lemma example_colours:
  "sideColor zoneM \<noteq> None" "topColor zoneM \<noteq> None" "sideColor zoneD = None"
  by (simp_all add: sideColor_def topColor_def zoneM_def zoneD_def)

lemma both_negative_aborts:
  "fst (renderScene (propsOf [zoneM, zoneA]) page0 initial_twin) = Thrown IndexSizeError
   \<and> map fst (zoneHitAreas (snd (renderScene (propsOf [zoneM, zoneA]) page0 initial_twin))) = [''M'']
   \<and> length (painted (canvas_ctx (snd (renderScene (propsOf [zoneM, zoneA]) page0 initial_twin)))) = 3"
proof -
  have t: "createRadialGradient_throws 0 (max (- 10 * (8 / 10)) (- 10 * (8 / 10)))"
    using radial_throws_iff [of "- 10" "- 10"] by simp
  have "length (painted (canvas_ctx (snd (draw3DZone (frameStart (propsOf [zoneM, zoneA]) initial_twin)
      zoneM 500 490)))) = 3"
    unfolding draw3DZone_def Let_def example_rects option.case prod.case
    using t example_colours(1,2)
    by (simp add: empty_frame_start ctx_fillPolygon_def ctx_translate_def ctx_save_def)
  then show ?thesis
    by (simp add: first_zone_throws [OF page0_ready example_outcomes(5)] draw3DZone_areas
          example_outcomes example_ids)
       (simp add: frameStart_def initial_twin_def)
qed

lemma non_finite_width_aborts:
  "fst (renderScene (propsOf [zoneW, zoneA]) page0 initial_twin) = Thrown TypeError
   \<and> zoneHitAreas (snd (renderScene (propsOf [zoneW, zoneA]) page0 initial_twin)) = []
   \<and> length (painted (canvas_ctx (snd (renderScene (propsOf [zoneW, zoneA]) page0 initial_twin)))) = 1"
proof -
  have "length (painted (canvas_ctx (snd (draw3DZone (frameStart (propsOf [zoneW, zoneA]) initial_twin)
      zoneW 500 490)))) = 1"
    unfolding draw3DZone_def Let_def example_rects option.case
    by (simp add: empty_frame_start ctx_translate_def ctx_save_def)
  then show ?thesis
    by (simp add: first_zone_throws [OF page0_ready example_outcomes(6)] draw3DZone_areas
          example_outcomes)
       (simp add: frameStart_def initial_twin_def)
qed

lemma non_finite_moisture_aborts:
  "fst (renderScene (propsOf [zoneD, zoneA]) page0 initial_twin) = Thrown SyntaxError
   \<and> zoneHitAreas (snd (renderScene (propsOf [zoneD, zoneA]) page0 initial_twin)) = []
   \<and> length (painted (canvas_ctx (snd (renderScene (propsOf [zoneD, zoneA]) page0 initial_twin)))) = 2"
proof -
  have r: "finiteRect (position zoneD) = Some (0, 0, 100, 100)"
    by (simp add: finiteRect_def zoneD_def)
  have "length (painted (canvas_ctx (snd (draw3DZone (frameStart (propsOf [zoneD, zoneA]) initial_twin)
      zoneD 500 490)))) = 2"
    unfolding draw3DZone_def Let_def r option.case prod.case
    using example_colours(3)
    by (simp add: empty_frame_start ctx_fillPolygon_def ctx_translate_def ctx_save_def)
  then show ?thesis
    by (simp add: first_zone_throws [OF page0_ready example_outcomes(7)] draw3DZone_areas
          example_outcomes)
       (simp add: frameStart_def initial_twin_def)
qed

end
